theory Spec2Isabelle
  imports Complex_Main "HOL-Library.Multiset"
begin

section \<open>The pipeline of mlflow\_dag.py\<close>

text \<open>
  The five task callables of \<^verbatim>\<open>src/4_airflow/mlflow_dag.py\<close> are embedded as
  functions over an explicit world: the runs held by the tracking service, the model
  registry, the orchestrator's message store (XCom) and a counter of the requests made to
  the tracking service. An exception is the value \<open>Inl e\<close>; the world reached when it was
  raised is returned with it, since nothing a task has written is undone.
\<close>

subsection \<open>Errors and values\<close>

datatype error =
    TypeError
  | KeyError string
  | IndexError
  | ValueError
  | MlflowException string

text \<open>What a task pushes to the message store: a run id, or a list of run ids.\<close>

datatype xval = Str string | StrList "string list"

text \<open>
  A Python float: a finite number, an infinity or NaN. Arithmetic on finite numbers is
  exact unless the result lies beyond the largest double, where it overflows to an
  infinity; rounding is not modelled. Every comparison with NaN is false.
\<close>

datatype pyfloat = Num real | PInf | NInf | NaN

definition fmax :: real where
  "fmax = (2 - (1 / 2) ^ 52) * 2 ^ 1023"

definition fl :: "real \<Rightarrow> pyfloat" where
  "fl x = (if fmax < x then PInf else if x < - fmax then NInf else Num x)"

fun fle :: "pyfloat \<Rightarrow> pyfloat \<Rightarrow> bool" where
  "fle (Num a) (Num b) = (a \<le> b)"
| "fle NaN y = False"
| "fle x NaN = False"
| "fle NInf y = True"
| "fle x PInf = True"
| "fle x y = False"

definition flt :: "pyfloat \<Rightarrow> pyfloat \<Rightarrow> bool" where
  "flt x y = (fle x y \<and> x \<noteq> y)"

fun fneg :: "pyfloat \<Rightarrow> pyfloat" where
  "fneg (Num a) = Num (- a)"
| "fneg PInf = NInf"
| "fneg NInf = PInf"
| "fneg NaN = NaN"

fun fadd :: "pyfloat \<Rightarrow> pyfloat \<Rightarrow> pyfloat" where
  "fadd (Num a) (Num b) = fl (a + b)"
| "fadd NaN y = NaN"
| "fadd x NaN = NaN"
| "fadd PInf NInf = NaN"
| "fadd NInf PInf = NaN"
| "fadd PInf y = PInf"
| "fadd x PInf = PInf"
| "fadd NInf y = NInf"
| "fadd x NInf = NInf"

definition fsub :: "pyfloat \<Rightarrow> pyfloat \<Rightarrow> pyfloat" where
  "fsub x y = fadd x (fneg y)"

fun fdiv :: "pyfloat \<Rightarrow> pyfloat \<Rightarrow> pyfloat" where
  "fdiv (Num a) (Num b) =
     (if b = 0 then (if a = 0 then NaN else if 0 < a then PInf else NInf) else fl (a / b))"
| "fdiv NaN y = NaN"
| "fdiv x NaN = NaN"
| "fdiv (Num a) y = Num 0"
| "fdiv x (Num b) = (if 0 \<le> b then x else fneg x)"
| "fdiv x y = NaN"

fun fsquare :: "pyfloat \<Rightarrow> pyfloat" where
  "fsquare (Num a) = fl (a\<^sup>2)"
| "fsquare PInf = PInf"
| "fsquare NInf = PInf"
| "fsquare NaN = NaN"

fun fabs :: "pyfloat \<Rightarrow> pyfloat" where
  "fabs (Num a) = Num \<bar>a\<bar>"
| "fabs PInf = PInf"
| "fabs NInf = PInf"
| "fabs NaN = NaN"

fun fsqrt :: "pyfloat \<Rightarrow> pyfloat" where
  "fsqrt (Num a) = (if 0 \<le> a then Num (sqrt a) else NaN)"
| "fsqrt PInf = PInf"
| "fsqrt NInf = NaN"
| "fsqrt NaN = NaN"

text \<open>A sum from left to right, and \<^verbatim>\<open>np.average\<close> of a sequence.\<close>

definition fsum :: "pyfloat list \<Rightarrow> pyfloat" where
  "fsum xs = foldl fadd (Num 0) xs"

definition fmean :: "pyfloat list \<Rightarrow> pyfloat" where
  "fmean xs = fdiv (fsum xs) (Num (real (length xs)))"

text \<open>
  The matrices of targets and predictions hold finite numbers: the library refuses NaN
  and infinities in them.
\<close>

type_synonym matrix = "real list list"

text \<open>The estimators the trainers construct, with their hyperparameters.\<close>

datatype estimator = LinearRegression | RandomForestRegressor int int

datatype artifact = File string | Model estimator

datatype run_status = RUNNING | FINISHED | FAILED

record run =
  run_id :: string
  run_name :: string
  status :: run_status
  params :: "string \<rightharpoonup> int"
  metrics :: "string \<rightharpoonup> pyfloat"
  artifacts :: "(string \<times> artifact) list"

record model_version =
  name :: string
  version :: nat
  source :: string
  current_stage :: string

record dataset =
  X_train :: matrix
  X_test :: matrix
  y_train :: matrix
  y_test :: matrix

record world =
  runs :: "run list"
  registry :: "model_version list"
  xcom :: "string \<times> string \<rightharpoonup> xval"
  clock :: nat

text \<open>
  What the code takes from outside: whether the tracking service answers its n-th
  request (\<open>up\<close>), the id the service gives the n-th run it creates (\<open>gen_id\<close>), the
  directory a download lands in, the directory of the script, the reading and splitting
  of the downloaded table (lines 45 to 48 and 71 to 75: \<^verbatim>\<open>pd.read_csv\<close>, the column
  selections and \<^verbatim>\<open>train_test_split\<close>) and the fitting of an estimator followed by
  its prediction on the held-out features (\<^verbatim>\<open>model.fit\<close>, \<^verbatim>\<open>model.predict\<close>).
\<close>

record env =
  up :: "nat \<Rightarrow> bool"
  gen_id :: "nat \<Rightarrow> string"
  local_dir :: "string \<Rightarrow> string \<Rightarrow> string"
  this_dir :: string
  read_split :: "string \<Rightarrow> error + dataset"
  fit_predict :: "estimator \<Rightarrow> dataset \<Rightarrow> error + matrix"
  repr :: "string \<Rightarrow> string"

subsection \<open>Sequencing with exceptions\<close>

type_synonym 'a prog = "world \<Rightarrow> (error + 'a) \<times> world"

definition ret :: "'a \<Rightarrow> 'a prog" where
  "ret x w = (Inr x, w)"

definition lift :: "error + 'a \<Rightarrow> 'a prog" where
  "lift r w = (r, w)"

definition bnd :: "'a prog \<Rightarrow> ('a \<Rightarrow> 'b prog) \<Rightarrow> 'b prog" where
  "bnd m f w = (case m w of (Inl e, w') \<Rightarrow> (Inl e, w') | (Inr x, w') \<Rightarrow> f x w')"

text \<open>A list comprehension whose element expression may raise.\<close>

fun for_each :: "('a \<Rightarrow> 'b prog) \<Rightarrow> 'a list \<Rightarrow> 'b list prog" where
  "for_each f [] = ret []"
| "for_each f (x # xs) = bnd (f x) (\<lambda>y. bnd (for_each f xs) (\<lambda>ys. ret (y # ys)))"

fun collect :: "('a \<Rightarrow> error + 'b) \<Rightarrow> 'a list \<Rightarrow> error + 'b list" where
  "collect f [] = Inr []"
| "collect f (x # xs) =
     (case f x of
        Inl e \<Rightarrow> Inl e
      | Inr y \<Rightarrow> (case collect f xs of Inl e \<Rightarrow> Inl e | Inr ys \<Rightarrow> Inr (y # ys)))"

text \<open>\<^verbatim>\<open>xs[i]\<close> for an index that is not negative.\<close>

definition item :: "'a list \<Rightarrow> nat \<Rightarrow> error + 'a" where
  "item xs i = (if i < length xs then Inr (xs ! i) else Inl IndexError)"

subsection \<open>The message store\<close>

text \<open>
  Modelled from the spec: the orchestrator's store, "a push/pull keyed message store
  scoped per pipeline run, keyed by (producing task id, key name)".
  \<^verbatim>\<open>ti.xcom_push\<close> writes under the pushing task's own id; \<^verbatim>\<open>ti.xcom_pull\<close> of one
  task id gives the value or \<^verbatim>\<open>None\<close>, and of a list of task ids the values in the
  order of the task ids.
\<close>

definition xcom_push :: "string \<Rightarrow> string \<Rightarrow> xval \<Rightarrow> unit prog" where
  "xcom_push ti key v w = (Inr (), w\<lparr>xcom := (xcom w)((ti, key) \<mapsto> v)\<rparr>)"

definition xcom_pull :: "string \<Rightarrow> string \<Rightarrow> xval option prog" where
  "xcom_pull task key w = (Inr (xcom w (task, key)), w)"

definition xcom_pull_many :: "string list \<Rightarrow> string \<Rightarrow> xval option list prog" where
  "xcom_pull_many tasks key w = (Inr (map (\<lambda>t. xcom w (t, key)) tasks), w)"

text \<open>
  Iterating over a pulled value: \<^verbatim>\<open>None\<close> is not iterable, a string yields its
  characters, a list its elements.
\<close>

fun iterate :: "xval option \<Rightarrow> error + string list" where
  "iterate None = Inl TypeError"
| "iterate (Some (Str s)) = Inr (map (\<lambda>c. [c]) s)"
| "iterate (Some (StrList l)) = Inr l"

text \<open>\<^verbatim>\<open>[r for ids in pulled for r in ids]\<close>\<close>

fun flatten :: "xval option list \<Rightarrow> error + string list" where
  "flatten [] = Inr []"
| "flatten (v # vs) =
     (case iterate v of
        Inl e \<Rightarrow> Inl e
      | Inr ids \<Rightarrow> (case flatten vs of Inl e \<Rightarrow> Inl e | Inr rest \<Rightarrow> Inr (ids @ rest)))"

subsection \<open>The tracking service\<close>

text \<open>
  Modelled from the spec: the tracking service, which the code reaches through its API
  ("fetch a Run by id (exposing its metrics/params)"; "if any referenced run_id is
  missing from the tracking service, lookup fails"). Every request to the service takes
  one tick of the clock and fails when the service does not answer it.
\<close>

definition request :: "env \<Rightarrow> 'a prog \<Rightarrow> 'a prog" where
  "request e m w =
     (if up e (clock w) then m (w\<lparr>clock := clock w + 1\<rparr>)
      else (Inl (MlflowException ''request failed''), w\<lparr>clock := clock w + 1\<rparr>))"

definition find_run :: "world \<Rightarrow> string \<Rightarrow> run option" where
  "find_run w rid = find (\<lambda>r. run_id r = rid) (runs w)"

definition get_run :: "env \<Rightarrow> string \<Rightarrow> run prog" where
  "get_run e rid =
     request e (\<lambda>w. case find_run w rid of
                      None \<Rightarrow> (Inl (MlflowException ''run not found''), w)
                    | Some r \<Rightarrow> (Inr r, w))"

text \<open>\<^verbatim>\<open>run.data.metrics[key]\<close>\<close>

definition metric :: "string \<Rightarrow> run \<Rightarrow> error + pyfloat" where
  "metric key r = (case metrics r key of None \<Rightarrow> Inl (KeyError key) | Some v \<Rightarrow> Inr v)"

subsection \<open>The index of the maximum\<close>

text \<open>
  Modelled from the spec: \<^verbatim>\<open>np.argmax\<close>, the library's routine, of a sequence of
  floats. "Ties broken by whichever the underlying max-finding routine returns first,
  i.e. first occurrence in list order": the routine scans from the left and moves to an
  element only when that element is not less than or equal to the largest so far. A NaN
  is never less than or equal, so the scan moves to the first NaN and stops there. An
  empty sequence raises.
\<close>

fun argmax_from :: "nat \<Rightarrow> nat \<Rightarrow> pyfloat \<Rightarrow> pyfloat list \<Rightarrow> nat" where
  "argmax_from i b v [] = b"
| "argmax_from i b v (x # xs) =
     (if v = NaN then b
      else if fle x v then argmax_from (Suc i) b v xs
      else argmax_from (Suc i) i x xs)"

fun argmax :: "pyfloat list \<Rightarrow> error + nat" where
  "argmax [] = Inl ValueError"
| "argmax (x # xs) = Inr (argmax_from 1 0 x xs)"

subsection \<open>The Model Selector\<close>

text \<open>Lines 101 to 105, for the ids that line 100 has flattened.\<close>

definition select_best :: "env \<Rightarrow> string \<Rightarrow> string list \<Rightarrow> unit prog" where
  "select_best e ti ids =
     bnd (for_each (get_run e) ids) (\<lambda>rs.
     bnd (lift (collect (metric ''r2'') rs)) (\<lambda>run_r2.
     bnd (lift (argmax run_r2)) (\<lambda>i.
     bnd (lift (item rs i)) (\<lambda>best_run.
     xcom_push ti ''best_model_run_id'' (Str (run_id best_run))))))"

definition get_best_model :: "env \<Rightarrow> string \<Rightarrow> unit prog" where
  "get_best_model e ti =
     bnd (xcom_pull_many [''model_lr'', ''model_rf''] ''run_id'') (\<lambda>pulled.
     bnd (lift (flatten pulled)) (\<lambda>ids.
     select_best e ti ids))"

text \<open>The candidates of a selection: the flattened lists of the two trainers.\<close>

definition candidates :: "world \<Rightarrow> error + string list" where
  "candidates w = flatten (map (\<lambda>t. xcom w (t, ''run_id'')) [''model_lr'', ''model_rf''])"

text \<open>The R2 metric the tracking service holds for a run id, if any.\<close>

definition recorded_r2 :: "world \<Rightarrow> string \<Rightarrow> pyfloat option" where
  "recorded_r2 w rid = (case find_run w rid of None \<Rightarrow> None | Some r \<Rightarrow> metrics r ''r2'')"

subsection \<open>Runs, parameters, metrics and artifacts\<close>

text \<open>
  Modelled from the spec: the calls of the tracking service that write ("start/end a
  scoped run; log a metric (name, float); log a parameter (name, value); log an artifact
  (local path, destination folder) or a structured model object; download an artifact by
  run_id and folder name to a local path"). A run is "created at the start of a step"
  and "finalized when the step's scoped tracking context closes".
  \<^verbatim>\<open>with mlflow.start_run(run_name=...) as run\<close> creates a run and makes it the active
  one; the logging calls of the block write to it. The model passes the active run along:
  its position among the runs of the service and its id (\<^verbatim>\<open>run.info.run_id\<close>).
\<close>

record active_run =
  slot :: nat
  info_run_id :: string

definition start_run :: "env \<Rightarrow> string \<Rightarrow> active_run prog" where
  "start_run e nm =
     request e (\<lambda>w.
       (Inr \<lparr>slot = length (runs w), info_run_id = gen_id e (length (runs w))\<rparr>,
        w\<lparr>runs := runs w @
             [\<lparr>run_id = gen_id e (length (runs w)), run_name = nm, status = RUNNING,
               params = Map.empty, metrics = Map.empty, artifacts = []\<rparr>]\<rparr>))"

definition update_run :: "active_run \<Rightarrow> (run \<Rightarrow> run) \<Rightarrow> unit prog" where
  "update_run a f w =
     (if slot a < length (runs w)
      then (Inr (), w\<lparr>runs := (runs w)[slot a := f (runs w ! slot a)]\<rparr>)
      else (Inl (MlflowException ''run not found''), w))"

definition log_param :: "env \<Rightarrow> active_run \<Rightarrow> string \<Rightarrow> int \<Rightarrow> unit prog" where
  "log_param e a key v = request e (update_run a (\<lambda>r. r\<lparr>params := (params r)(key \<mapsto> v)\<rparr>))"

definition log_metric :: "env \<Rightarrow> active_run \<Rightarrow> string \<Rightarrow> pyfloat \<Rightarrow> unit prog" where
  "log_metric e a key v = request e (update_run a (\<lambda>r. r\<lparr>metrics := (metrics r)(key \<mapsto> v)\<rparr>))"

definition log_model :: "env \<Rightarrow> active_run \<Rightarrow> estimator \<Rightarrow> string \<Rightarrow> unit prog" where
  "log_model e a m path =
     request e (update_run a (\<lambda>r. r\<lparr>artifacts := artifacts r @ [(path, Model m)]\<rparr>))"

definition log_artifact :: "env \<Rightarrow> active_run \<Rightarrow> string \<Rightarrow> string \<Rightarrow> unit prog" where
  "log_artifact e a local_path path =
     request e (update_run a (\<lambda>r. r\<lparr>artifacts := artifacts r @ [(path, File local_path)]\<rparr>))"

definition end_run :: "env \<Rightarrow> active_run \<Rightarrow> run_status \<Rightarrow> unit prog" where
  "end_run e a st = request e (update_run a (\<lambda>r. r\<lparr>status := st\<rparr>))"

text \<open>
  Leaving the \<^verbatim>\<open>with\<close> block ends the run: FINISHED after a normal exit, FAILED after
  an exception, which is then raised again.
\<close>

definition with_run :: "env \<Rightarrow> string \<Rightarrow> (active_run \<Rightarrow> 'a prog) \<Rightarrow> 'a prog" where
  "with_run e nm body =
     bnd (start_run e nm) (\<lambda>a w.
       case body a w of
         (Inl err, w') \<Rightarrow> bnd (end_run e a FAILED) (\<lambda>_. lift (Inl err)) w'
       | (Inr x, w') \<Rightarrow> bnd (end_run e a FINISHED) (\<lambda>_. ret x) w')"

text \<open>\<^verbatim>\<open>client.download_artifacts(run_id, path)\<close>: the local directory of the copy.\<close>

definition download_artifacts :: "env \<Rightarrow> xval option \<Rightarrow> string \<Rightarrow> string prog" where
  "download_artifacts e rid path =
     request e (\<lambda>w.
       case rid of
         Some (Str r) \<Rightarrow>
           (case find_run w r of
              None \<Rightarrow> (Inl (MlflowException ''run not found''), w)
            | Some rn \<Rightarrow>
                if path \<in> fst ` set (artifacts rn) then (Inr (local_dir e r path), w)
                else (Inl (MlflowException ''artifact not found''), w))
       | _ \<Rightarrow> (Inl (MlflowException ''invalid run id''), w))"

subsection \<open>The model registry\<close>

text \<open>
  Modelled from the spec: the registry of the tracking service ("register a model under
  a name from a runs:/<id>/model URI; transition a named model version's stage"; a
  registered model has a "version (monotonic integer assigned by tracking service)").
  \<^verbatim>\<open>mlflow.register_model(model_uri, name)\<close> adds a version of the named model whose
  source is the URI and gives back its details; the version number is one more than the
  number of versions the name has. Whether the service accepts the URI is part of whether
  it answers the request. \<^verbatim>\<open>transition_model_version_stage\<close> sets the stage of
  one version.
\<close>

definition register_model :: "env \<Rightarrow> string \<Rightarrow> string \<Rightarrow> model_version prog" where
  "register_model e uri nm =
     request e (\<lambda>w.
       let mv = \<lparr>name = nm, version = Suc (length (filter (\<lambda>v. name v = nm) (registry w))),
                 source = uri, current_stage = ''None''\<rparr>
       in (Inr mv, w\<lparr>registry := registry w @ [mv]\<rparr>))"

definition transition_model_version_stage ::
    "env \<Rightarrow> string \<Rightarrow> nat \<Rightarrow> string \<Rightarrow> unit prog" where
  "transition_model_version_stage e nm ver stage =
     request e (\<lambda>w.
       if \<exists>v \<in> set (registry w). name v = nm \<and> version v = ver
       then (Inr (), w\<lparr>registry :=
               map (\<lambda>v. if name v = nm \<and> version v = ver then v\<lparr>current_stage := stage\<rparr> else v)
                 (registry w)\<rparr>)
       else (Inl (MlflowException ''model version not found''), w))"

subsection \<open>eval\_metrics\<close>

text \<open>
  Modelled from the spec: the three scoring functions of the statistics library, which
  the repository imports and does not contain. "RMSE = sqrt(mean squared error); all
  three metrics computed over the full held-out target matrix (both output columns
  jointly, as library default multi-output averaging)": each score is computed for each
  output column over all rows, and the column scores are averaged with equal weights.
  The targets must have the same shape, with at least one row and one column and fewer
  than 2^63 of each (no array is larger); anything else raises.
\<close>

definition check_targets :: "matrix \<Rightarrow> matrix \<Rightarrow> error + nat" where
  "check_targets y_true y_pred =
     (if length y_true \<noteq> length y_pred \<or> y_true = [] \<or> 2 ^ 63 \<le> length y_true
      then Inl ValueError
      else let k = length (hd y_true) in
        if k = 0 \<or> 2 ^ 63 \<le> k \<or> \<not> list_all (\<lambda>row. length row = k) y_true
                 \<or> \<not> list_all (\<lambda>row. length row = k) y_pred
        then Inl ValueError else Inr k)"

definition column :: "matrix \<Rightarrow> nat \<Rightarrow> real list" where
  "column m j = map (\<lambda>row. row ! j) m"

definition squared_errors :: "real list \<Rightarrow> real list \<Rightarrow> pyfloat list" where
  "squared_errors ys ps = map2 (\<lambda>y p. fsquare (fsub (Num y) (Num p))) ys ps"

definition absolute_errors :: "real list \<Rightarrow> real list \<Rightarrow> pyfloat list" where
  "absolute_errors ys ps = map2 (\<lambda>y p. fabs (fsub (Num y) (Num p))) ys ps"

definition mean_squared_error :: "matrix \<Rightarrow> matrix \<Rightarrow> error + pyfloat" where
  "mean_squared_error y_true y_pred =
     (case check_targets y_true y_pred of
        Inl err \<Rightarrow> Inl err
      | Inr k \<Rightarrow>
          Inr (fmean (map (\<lambda>j. fmean (squared_errors (column y_true j) (column y_pred j)))
                       [0..<k])))"

definition mean_absolute_error :: "matrix \<Rightarrow> matrix \<Rightarrow> error + pyfloat" where
  "mean_absolute_error y_true y_pred =
     (case check_targets y_true y_pred of
        Inl err \<Rightarrow> Inl err
      | Inr k \<Rightarrow>
          Inr (fmean (map (\<lambda>j. fmean (absolute_errors (column y_true j) (column y_pred j)))
                       [0..<k])))"

text \<open>
  Modelled from the spec: R2 is named and bounded there ("R2 at most 1.0 (may be negative
  for poor fits)") without a formula. This is the coefficient of determination as the
  library computes it. For one column: one minus the residual sum of squares over the
  total sum of squares when neither is zero, else 0 when the residuals do not vanish,
  else 1. With fewer than two rows the score is not defined and the library returns NaN.
\<close>

definition r2_numerator :: "real list \<Rightarrow> real list \<Rightarrow> pyfloat" where
  "r2_numerator ys ps = fsum (squared_errors ys ps)"

definition r2_denominator :: "real list \<Rightarrow> pyfloat" where
  "r2_denominator ys = fsum (map (\<lambda>y. fsquare (fsub (Num y) (fmean (map Num ys)))) ys)"

definition r2_column :: "real list \<Rightarrow> real list \<Rightarrow> pyfloat" where
  "r2_column ys ps =
     (let numerator = r2_numerator ys ps;
          denominator = r2_denominator ys
      in if numerator \<noteq> Num 0 \<and> denominator \<noteq> Num 0
         then fsub (Num 1) (fdiv numerator denominator)
         else if numerator \<noteq> Num 0 then Num 0
         else Num 1)"

definition r2_score :: "matrix \<Rightarrow> matrix \<Rightarrow> error + pyfloat" where
  "r2_score y_true y_pred =
     (case check_targets y_true y_pred of
        Inl err \<Rightarrow> Inl err
      | Inr k \<Rightarrow>
          if length y_pred < 2 then Inr NaN
          else Inr (fmean (map (\<lambda>j. r2_column (column y_true j) (column y_pred j)) [0..<k])))"

text \<open>Lines 18 to 23.\<close>

definition eval_metrics :: "matrix \<Rightarrow> matrix \<Rightarrow> error + pyfloat \<times> pyfloat \<times> pyfloat" where
  "eval_metrics actual pred =
     (case mean_squared_error actual pred of
        Inl err \<Rightarrow> Inl err
      | Inr mse \<Rightarrow>
          (case mean_absolute_error actual pred of
             Inl err \<Rightarrow> Inl err
           | Inr mae \<Rightarrow>
               (case r2_score actual pred of
                  Inl err \<Rightarrow> Inl err
                | Inr r2 \<Rightarrow> Inr (fsqrt mse, mae, r2))))"

text \<open>
  The mean of a score over all entries of the target matrix at once, in exact arithmetic,
  as the sentence of the spec reads; what the trainers log is compared with it below.
\<close>

definition joint_mean :: "(real \<Rightarrow> real \<Rightarrow> real) \<Rightarrow> matrix \<Rightarrow> matrix \<Rightarrow> real" where
  "joint_mean f y_true y_pred =
     sum_list (map2 f (concat y_true) (concat y_pred)) / real (length (concat y_true))"

subsection \<open>The Data Publisher\<close>

text \<open>\<^verbatim>\<open>os.path.join(a, b)\<close> for a relative \<open>b\<close>.\<close>

definition path_join :: "string \<Rightarrow> string \<Rightarrow> string" where
  "path_join a b = (if a = [] \<or> last a = CHR ''/'' then a @ b else a @ ''/'' @ b)"

definition process_data :: "env \<Rightarrow> string \<Rightarrow> unit prog" where
  "process_data e ti =
     with_run e ''process'' (\<lambda>run.
       bnd (log_artifact e run (path_join (this_dir e) ''germany.csv'') ''processed_data'') (\<lambda>_.
       xcom_push ti ''run_id'' (Str (info_run_id run))))"

subsection \<open>The trainers\<close>

text \<open>Lines 41 to 48 and 67 to 75: the data of the upstream run, read and split.\<close>

definition load_data :: "env \<Rightarrow> dataset prog" where
  "load_data e =
     bnd (xcom_pull ''process_data'' ''run_id'') (\<lambda>data_run_id.
     bnd (download_artifacts e data_run_id ''processed_data'') (\<lambda>path.
     lift (read_split e (path @ ''/germany.csv''))))"

definition make_lr :: "env \<Rightarrow> string \<Rightarrow> unit prog" where
  "make_lr e ti =
     bnd (load_data e) (\<lambda>d.
     with_run e ''lr'' (\<lambda>run.
       bnd (lift (fit_predict e LinearRegression d)) (\<lambda>y_predict.
       bnd (lift (eval_metrics (y_test d) y_predict)) (\<lambda>(rmse, mae, r2).
       bnd (log_metric e run ''rmse'' rmse) (\<lambda>_.
       bnd (log_metric e run ''mae'' mae) (\<lambda>_.
       bnd (log_metric e run ''r2'' r2) (\<lambda>_.
       bnd (log_model e run LinearRegression ''model'') (\<lambda>_.
       xcom_push ti ''run_id'' (StrList [info_run_id run])))))))))"

text \<open>
  The body of the two loops of \<open>make_rf\<close> (lines 80 to 93): one run for one pair of
  hyperparameters, whose id is appended to the list \<open>runs\<close>.
\<close>

definition rf_run :: "env \<Rightarrow> dataset \<Rightarrow> int \<Rightarrow> int \<Rightarrow> string list \<Rightarrow> string list prog" where
  "rf_run e d n_estimators max_depth rs =
     with_run e ''rf'' (\<lambda>run.
       bnd (lift (fit_predict e (RandomForestRegressor n_estimators max_depth) d)) (\<lambda>y_predict.
       bnd (lift (eval_metrics (y_test d) y_predict)) (\<lambda>(rmse, mae, r2).
       bnd (log_param e run ''n_estimators'' n_estimators) (\<lambda>_.
       bnd (log_param e run ''max_depth'' max_depth) (\<lambda>_.
       bnd (log_metric e run ''rmse'' rmse) (\<lambda>_.
       bnd (log_metric e run ''mae'' mae) (\<lambda>_.
       bnd (log_metric e run ''r2'' r2) (\<lambda>_.
       bnd (log_model e run (RandomForestRegressor n_estimators max_depth) ''model'') (\<lambda>_.
       ret (rs @ [info_run_id run]))))))))))"

text \<open>\<^verbatim>\<open>for max_depth in ...\<close> and \<^verbatim>\<open>for n_estimators in ...\<close>\<close>

fun rf_depths :: "env \<Rightarrow> dataset \<Rightarrow> int \<Rightarrow> int list \<Rightarrow> string list \<Rightarrow> string list prog" where
  "rf_depths e d n_estimators [] rs = ret rs"
| "rf_depths e d n_estimators (max_depth # rest) rs =
     bnd (rf_run e d n_estimators max_depth rs) (rf_depths e d n_estimators rest)"

fun rf_grid :: "env \<Rightarrow> dataset \<Rightarrow> int list \<Rightarrow> string list \<Rightarrow> string list prog" where
  "rf_grid e d [] rs = ret rs"
| "rf_grid e d (n_estimators # rest) rs =
     bnd (rf_depths e d n_estimators [4, 10] rs) (rf_grid e d rest)"

definition make_rf :: "env \<Rightarrow> string \<Rightarrow> unit prog" where
  "make_rf e ti =
     bnd (load_data e) (\<lambda>d.
     bnd (rf_grid e d [4, 25] []) (\<lambda>rs.
     xcom_push ti ''run_id'' (StrList rs)))"

subsection \<open>The Model Promoter\<close>

text \<open>
  What an f-string makes of a pulled value: \<^verbatim>\<open>None\<close> prints as its name, a string as
  itself, a list as the representations of its elements between brackets.
\<close>

fun join :: "string \<Rightarrow> string list \<Rightarrow> string" where
  "join sep [] = []"
| "join sep [x] = x"
| "join sep (x # y # ys) = x @ sep @ join sep (y # ys)"

fun format_value :: "env \<Rightarrow> xval option \<Rightarrow> string" where
  "format_value e None = ''None''"
| "format_value e (Some (Str s)) = s"
| "format_value e (Some (StrList l)) = ''['' @ join '', '' (map (repr e) l) @ '']''"

definition register_best_model :: "env \<Rightarrow> string \<Rightarrow> unit prog" where
  "register_best_model e ti =
     bnd (xcom_pull ''get_best_model'' ''best_model_run_id'') (\<lambda>run_id.
     let model_uri = ''runs:/'' @ format_value e run_id @ ''/model'' in
     bnd (register_model e model_uri ''BestModel'') (\<lambda>model_details.
     transition_model_version_stage e (name model_details) (version model_details)
       ''Production''))"

subsection \<open>The tasks of the graph\<close>

text \<open>Lines 130 to 134: each callable runs as the task instance of one task id.\<close>

definition task_process :: "env \<Rightarrow> unit prog" where
  "task_process e = process_data e ''process_data''"

definition task_lr :: "env \<Rightarrow> unit prog" where
  "task_lr e = make_lr e ''model_lr''"

definition task_rf :: "env \<Rightarrow> unit prog" where
  "task_rf e = make_rf e ''model_rf''"

definition task_get_best_model :: "env \<Rightarrow> unit prog" where
  "task_get_best_model e = get_best_model e ''get_best_model''"

definition task_register_best_model :: "env \<Rightarrow> unit prog" where
  "task_register_best_model e = register_best_model e ''register_best_model''"

section \<open>Specification predicates\<close>

text \<open>
  What the selection is expected to return among numbers: an index of the maximum with
  nothing as large before it.
\<close>

definition first_max :: "pyfloat list \<Rightarrow> nat \<Rightarrow> bool" where
  "first_max xs r =
     (r < length xs \<and> (\<forall>j < length xs. fle (xs ! j) (xs ! r)) \<and> (\<forall>j < r. flt (xs ! j) (xs ! r)))"

text \<open>The index of the first NaN.\<close>

definition first_nan :: "pyfloat list \<Rightarrow> nat \<Rightarrow> bool" where
  "first_nan xs r = (r < length xs \<and> xs ! r = NaN \<and> (\<forall>j < r. xs ! j \<noteq> NaN))"

text \<open>What the scan returns: the first NaN if there is one, else the first maximum.\<close>

definition picked :: "pyfloat list \<Rightarrow> nat \<Rightarrow> bool" where
  "picked xs r = (if NaN \<in> set xs then first_nan xs r else first_max xs r)"

text \<open>A candidate whose R2 is above that of every other candidate.\<close>

definition strict_best :: "world \<Rightarrow> string list \<Rightarrow> string \<Rightarrow> bool" where
  "strict_best w ids best =
     (best \<in> set ids \<and>
      (\<exists>b. recorded_r2 w best = Some b \<and>
           (\<forall>rid \<in> set ids. rid \<noteq> best \<longrightarrow> (\<exists>v. recorded_r2 w rid = Some v \<and> flt v b))))"

text \<open>A float that is not negative: a number that is at least 0, or plus infinity.\<close>

definition fnonneg :: "pyfloat \<Rightarrow> bool" where
  "fnonneg x = fle (Num 0) x"

text \<open>A float that is NaN or at most 1.\<close>

definition at_most_one :: "pyfloat \<Rightarrow> bool" where
  "at_most_one x = (x = NaN \<or> fle x (Num 1))"

text \<open>
  What one iteration of the forest trainer leaves behind: a finished run named "rf" with
  the id the service gave it, both hyperparameters as params, the three metrics of the
  predictions on the held-out targets, and the model.
\<close>

definition rf_result :: "env \<Rightarrow> dataset \<Rightarrow> int \<Rightarrow> int \<Rightarrow> nat \<Rightarrow> run \<Rightarrow> bool" where
  "rf_result e d n_estimators max_depth i r =
     (run_id r = gen_id e i \<and> run_name r = ''rf'' \<and> status r = FINISHED \<and>
      params r = [''n_estimators'' \<mapsto> n_estimators, ''max_depth'' \<mapsto> max_depth] \<and>
      artifacts r = [(''model'', Model (RandomForestRegressor n_estimators max_depth))] \<and>
      (\<exists>y_predict rmse mae r2.
          fit_predict e (RandomForestRegressor n_estimators max_depth) d = Inr y_predict \<and>
          eval_metrics (y_test d) y_predict = Inr (rmse, mae, r2) \<and>
          metrics r = [''rmse'' \<mapsto> rmse, ''mae'' \<mapsto> mae, ''r2'' \<mapsto> r2]))"

text \<open>The runs created between two worlds, in the order of their creation.\<close>

definition new_runs :: "world \<Rightarrow> world \<Rightarrow> run list" where
  "new_runs w w' = drop (length (runs w)) (runs w')"

text \<open>The ids of the runs with a given name.\<close>

definition ids_named :: "string \<Rightarrow> run list \<Rightarrow> string list" where
  "ids_named nm rs = map run_id (filter (\<lambda>r. run_name r = nm) rs)"

text \<open>The pair of hyperparameters a run has recorded.\<close>

definition grid_of :: "run \<Rightarrow> int option \<times> int option" where
  "grid_of r = (params r ''n_estimators'', params r ''max_depth'')"

text \<open>
  What a run holds of the scores of predictions against targets: under "rmse" the square
  root of their mean squared error, under "mae" their mean absolute error and under "r2"
  their R2 score, where the two means, unless they overflowed to infinity, are the means
  over all entries of the matrix.
\<close>

definition logs_scores :: "matrix \<Rightarrow> matrix \<Rightarrow> run \<Rightarrow> bool" where
  "logs_scores actual pred r =
     (\<exists>mse mae r2.
        mean_squared_error actual pred = Inr mse \<and>
        mean_absolute_error actual pred = Inr mae \<and>
        r2_score actual pred = Inr r2 \<and>
        (mse = PInf \<or> mse = Num (joint_mean (\<lambda>y p. (y - p)\<^sup>2) actual pred)) \<and>
        (mae = PInf \<or> mae = Num (joint_mean (\<lambda>y p. \<bar>y - p\<bar>) actual pred)) \<and>
        metrics r ''rmse'' = Some (fsqrt mse) \<and>
        metrics r ''mae'' = Some mae \<and>
        metrics r ''r2'' = Some r2)"

section \<open>Example worlds\<close>

text \<open>
  A service that answers every request, and a world after both trainers have run, with
  four scored runs of which two share the largest R2 and one has NaN.
\<close>

definition scored_run :: "string \<Rightarrow> pyfloat \<Rightarrow> run" where
  "scored_run rid v =
     \<lparr>run_id = rid, run_name = ''rf'', status = FINISHED, params = Map.empty,
      metrics = [''r2'' \<mapsto> v], artifacts = [(''model'', Model (RandomForestRegressor 4 4))]\<rparr>"

definition reliable :: env where
  "reliable =
     \<lparr>up = (\<lambda>n. True), gen_id = (\<lambda>n. replicate (Suc n) CHR ''r''),
      local_dir = (\<lambda>rid dir. ''/tmp/'' @ rid @ ''/'' @ dir), this_dir = ''/dags'',
      read_split = (\<lambda>path. Inr \<lparr>X_train = [[1], [2]], X_test = [[3], [4]],
                                   y_train = [[1, 2], [2, 4]], y_test = [[3, 6], [4, 8]]\<rparr>),
      fit_predict = (\<lambda>m d. case m of LinearRegression \<Rightarrow> Inr [[3, 6], [4, 8]]
                                | RandomForestRegressor n k \<Rightarrow> Inr [[5, 8], [6, 10]]),
      repr = (\<lambda>s. [CHR 0x27] @ s @ [CHR 0x27])\<rparr>"

definition trained :: "string list \<Rightarrow> string list \<Rightarrow> world" where
  "trained lr rf =
     \<lparr>runs = [scored_run ''a'' (Num (1/2)), scored_run ''b'' (Num (9/10)),
              scored_run ''c'' (Num (9/10)), scored_run ''n'' NaN],
      registry = [],
      xcom = [(''model_lr'', ''run_id'') \<mapsto> StrList lr, (''model_rf'', ''run_id'') \<mapsto> StrList rf],
      clock = 0\<rparr>"

text \<open>
  The worlds of one execution of the graph with the reliable service: before any task,
  after the Data Publisher, after the linear trainer, after the forest trainer, after the
  selection and after the promotion; and the world a forest trainer leaves when the fit
  of its third forest fails.
\<close>

definition initial :: world where
  "initial = \<lparr>runs = [], registry = [], xcom = Map.empty, clock = 0\<rparr>"

definition process_run :: run where
  "process_run =
     \<lparr>run_id = ''r'', run_name = ''process'', status = FINISHED, params = Map.empty,
      metrics = Map.empty, artifacts = [(''processed_data'', File ''/dags/germany.csv'')]\<rparr>"

definition lr_run :: run where
  "lr_run =
     \<lparr>run_id = ''rr'', run_name = ''lr'', status = FINISHED, params = Map.empty,
      metrics = [''rmse'' \<mapsto> Num 0, ''mae'' \<mapsto> Num 0, ''r2'' \<mapsto> Num 1],
      artifacts = [(''model'', Model LinearRegression)]\<rparr>"

definition rf_run_of :: "string \<Rightarrow> run_status \<Rightarrow> int \<Rightarrow> int \<Rightarrow> run" where
  "rf_run_of rid st n_estimators max_depth =
     \<lparr>run_id = rid, run_name = ''rf'', status = st,
      params = [''n_estimators'' \<mapsto> n_estimators, ''max_depth'' \<mapsto> max_depth],
      metrics = [''rmse'' \<mapsto> Num 2, ''mae'' \<mapsto> Num 2, ''r2'' \<mapsto> Num (- 9)],
      artifacts = [(''model'', Model (RandomForestRegressor n_estimators max_depth))]\<rparr>"

definition published :: world where
  "published =
     \<lparr>runs = [process_run], registry = [],
      xcom = [(''process_data'', ''run_id'') \<mapsto> Str ''r''], clock = 3\<rparr>"

definition lr_trained :: world where
  "lr_trained =
     \<lparr>runs = [process_run, lr_run], registry = [],
      xcom = [(''process_data'', ''run_id'') \<mapsto> Str ''r'',
              (''model_lr'', ''run_id'') \<mapsto> StrList [''rr'']],
      clock = 10\<rparr>"

definition all_trained :: world where
  "all_trained =
     \<lparr>runs = [process_run, lr_run,
              rf_run_of ''rrr'' FINISHED 4 4, rf_run_of ''rrrr'' FINISHED 4 10,
              rf_run_of ''rrrrr'' FINISHED 25 4, rf_run_of ''rrrrrr'' FINISHED 25 10],
      registry = [],
      xcom = [(''process_data'', ''run_id'') \<mapsto> Str ''r'',
              (''model_lr'', ''run_id'') \<mapsto> StrList [''rr''],
              (''model_rf'', ''run_id'') \<mapsto> StrList [''rrr'', ''rrrr'', ''rrrrr'', ''rrrrrr'']],
      clock = 43\<rparr>"

definition flaky :: env where
  "flaky = reliable\<lparr>fit_predict :=
     (\<lambda>m d. if m = RandomForestRegressor 25 4 then Inl ValueError else fit_predict reliable m d)\<rparr>"

definition half_trained :: world where
  "half_trained =
     \<lparr>runs = [process_run, lr_run,
              rf_run_of ''rrr'' FINISHED 4 4, rf_run_of ''rrrr'' FINISHED 4 10,
              \<lparr>run_id = ''rrrrr'', run_name = ''rf'', status = FAILED, params = Map.empty,
               metrics = Map.empty, artifacts = []\<rparr>],
      registry = [],
      xcom = [(''process_data'', ''run_id'') \<mapsto> Str ''r'',
              (''model_lr'', ''run_id'') \<mapsto> StrList [''rr'']],
      clock = 29\<rparr>"

definition selected :: world where
  "selected = all_trained\<lparr>clock := 48,
     xcom := (xcom all_trained)((''get_best_model'', ''best_model_run_id'') \<mapsto> Str ''rr'')\<rparr>"

definition promoted :: world where
  "promoted = selected\<lparr>clock := 50,
     registry := [\<lparr>name = ''BestModel'', version = 1, source = ''runs:/rr/model'',
                   current_stage = ''Production''\<rparr>]\<rparr>"

text \<open>
  An environment whose data leave a single held-out row, for which R2 is not defined.
\<close>

definition tiny :: env where
  "tiny = reliable\<lparr>
     read_split := (\<lambda>path. Inr \<lparr>X_train = [[1], [2], [3], [4]], X_test = [[5]],
                                  y_train = [[1, 2], [2, 4], [3, 6], [4, 8]], y_test = [[1, 2]]\<rparr>),
     fit_predict := (\<lambda>m d. Inr [[2, 3]])\<rparr>"

text \<open>A number whose square is beyond the largest double.\<close>

definition huge :: real where
  "huge = 2 ^ 1000"

section \<open>Properties of the floats\<close>

lemma fle_not_NaN: "fle x y \<Longrightarrow> x \<noteq> NaN \<and> y \<noteq> NaN"
  by (cases x; cases y; simp)

lemma fle_refl: "x \<noteq> NaN \<Longrightarrow> fle x x"
  by (cases x; simp)

lemma fle_trans: "fle x y \<Longrightarrow> fle y z \<Longrightarrow> fle x z"
  by (cases x; cases y; cases z; simp)

lemma fle_antisym: "fle x y \<Longrightarrow> fle y x \<Longrightarrow> x = y"
  by (cases x; cases y; simp)

lemma not_fle_flt: "x \<noteq> NaN \<Longrightarrow> v \<noteq> NaN \<Longrightarrow> \<not> fle x v \<Longrightarrow> flt v x"
  by (cases x; cases v; auto simp: flt_def)

lemma fle_flt_trans: "fle x y \<Longrightarrow> flt y z \<Longrightarrow> flt x z"
  unfolding flt_def using fle_trans fle_antisym by blast

lemma flt_not_fle: "flt x y \<Longrightarrow> \<not> fle y x"
  unfolding flt_def using fle_antisym by blast

section \<open>Properties of the Model Selector\<close>

subsection \<open>The index of the maximum\<close>

lemma argmax_from_picked:
  "length ys = i \<Longrightarrow> b < i \<Longrightarrow> ys ! b = v \<Longrightarrow>
   (if v = NaN then first_nan ys b
    else NaN \<notin> set ys \<and> (\<forall>j < i. fle (ys ! j) v) \<and> (\<forall>j < b. flt (ys ! j) v)) \<Longrightarrow>
   picked (ys @ xs) (argmax_from i b v xs)"
proof (induction xs arbitrary: i b v ys)
  case Nil
  show ?case
  proof (cases "v = NaN")
    case True
    with Nil have fn: "first_nan ys b" by simp
    then have "NaN \<in> set ys" by (auto simp: first_nan_def dest: nth_mem)
    with fn show ?thesis by (simp add: picked_def)
  next
    case False
    with Nil show ?thesis by (simp add: picked_def first_max_def)
  qed
next
  case (Cons x xs)
  show ?case
  proof (cases "v = NaN")
    case True
    with Cons.prems have fn: "first_nan ys b" by simp
    then have "first_nan (ys @ x # xs) b"
      by (auto simp: first_nan_def nth_append)
    moreover from fn have "NaN \<in> set (ys @ x # xs)"
      by (auto simp: first_nan_def dest: nth_mem)
    ultimately show ?thesis using True by (simp add: picked_def)
  next
    case vn: False
    with Cons.prems have nn: "NaN \<notin> set ys" and le: "\<forall>j < i. fle (ys ! j) v"
      and lt: "\<forall>j < b. flt (ys ! j) v" by simp_all
    show ?thesis
    proof (cases "fle x v")
      case True
      then have xn: "x \<noteq> NaN" by (auto dest: fle_not_NaN)
      have "picked ((ys @ [x]) @ xs) (argmax_from (Suc i) b v xs)"
      proof (rule Cons.IH)
        show "length (ys @ [x]) = Suc i" using Cons.prems by simp
        show "b < Suc i" using Cons.prems by simp
        show "(ys @ [x]) ! b = v" using Cons.prems by (simp add: nth_append)
        show "if v = NaN then first_nan (ys @ [x]) b
              else NaN \<notin> set (ys @ [x]) \<and> (\<forall>j < Suc i. fle ((ys @ [x]) ! j) v) \<and>
                   (\<forall>j < b. flt ((ys @ [x]) ! j) v)"
          using vn nn xn le lt True Cons.prems(1,2)
          by (auto simp: nth_append less_Suc_eq)
      qed
      then show ?thesis using vn True by simp
    next
      case False
      have "picked ((ys @ [x]) @ xs) (argmax_from (Suc i) i x xs)"
      proof (rule Cons.IH)
        show "length (ys @ [x]) = Suc i" using Cons.prems by simp
        show "i < Suc i" by simp
        show "(ys @ [x]) ! i = x" using Cons.prems by (simp add: nth_append)
        show "if x = NaN then first_nan (ys @ [x]) i
              else NaN \<notin> set (ys @ [x]) \<and> (\<forall>j < Suc i. fle ((ys @ [x]) ! j) x) \<and>
                   (\<forall>j < i. flt ((ys @ [x]) ! j) x)"
        proof (cases "x = NaN")
          case True
          have "\<forall>j < i. ys ! j \<noteq> NaN" using nn Cons.prems(1) by (metis nth_mem)
          with True Cons.prems(1) show ?thesis
            by (auto simp: first_nan_def nth_append)
        next
          case xn: False
          from xn vn False have vx: "flt v x" by (rule not_fle_flt)
          have a: "\<forall>j < i. flt (ys ! j) x" using le vx fle_flt_trans by blast
          then have b: "\<forall>j < i. fle (ys ! j) x" by (simp add: flt_def)
          from a b xn nn Cons.prems(1) show ?thesis
            by (auto simp: nth_append less_Suc_eq fle_refl)
        qed
      qed
      then show ?thesis using vn False by simp
    qed
  qed
qed

lemma argmax_picked: "xs \<noteq> [] \<Longrightarrow> \<exists>r. argmax xs = Inr r \<and> picked xs r"
proof (cases xs)
  case Nil
  assume "xs \<noteq> []" with Nil show ?thesis by simp
next
  case (Cons x xs')
  have "picked ([x] @ xs') (argmax_from 1 0 x xs')"
    by (rule argmax_from_picked) (auto simp: first_nan_def fle_refl)
  with Cons show ?thesis by simp
qed

lemma picked_bound: "picked xs r \<Longrightarrow> r < length xs"
  by (auto simp: picked_def first_nan_def first_max_def split: if_splits)

lemma picked_numbers: "NaN \<notin> set xs \<Longrightarrow> picked xs r \<Longrightarrow> first_max xs r"
  by (simp add: picked_def)

lemma picked_NaN_or_max:
  "picked xs r \<Longrightarrow> xs ! r = NaN \<or> (\<forall>j < length xs. fle (xs ! j) (xs ! r))"
  by (auto simp: picked_def first_nan_def first_max_def split: if_splits)

lemma first_max_map:
  "first_max (map f xs) r \<Longrightarrow>
     r < length xs \<and> (\<forall>j < length xs. fle (f (xs ! j)) (f (xs ! r))) \<and>
     (\<forall>j < r. flt (f (xs ! j)) (f (xs ! r)))"
  by (auto simp: first_max_def)

subsection \<open>Looking up the candidates\<close>

lemma find_run_id: "find_run w rid = Some r \<Longrightarrow> run_id r = rid"
  by (auto simp: find_run_def find_Some_iff)

lemma find_run_clock [simp]: "find_run (w\<lparr>clock := n\<rparr>) rid = find_run w rid"
  by (simp add: find_run_def)

lemma for_each_get_run:
  "\<forall>k < length ids. up e (clock w + k) \<Longrightarrow> \<forall>rid \<in> set ids. find_run w rid \<noteq> None \<Longrightarrow>
   for_each (get_run e) ids w =
     (Inr (map (\<lambda>rid. the (find_run w rid)) ids), w\<lparr>clock := clock w + length ids\<rparr>)"
proof (induction ids arbitrary: w)
  case Nil
  then show ?case by (simp add: ret_def)
next
  case (Cons rid ids)
  from Cons.prems(1) have up0: "up e (clock w)" by force
  from Cons.prems(2) obtain r where r: "find_run w rid = Some r" by auto
  let ?w1 = "w\<lparr>clock := clock w + 1\<rparr>"
  have g: "get_run e rid w = (Inr r, ?w1)"
    using up0 r by (simp add: get_run_def request_def)
  have "\<forall>k<length ids. up e (clock ?w1 + k)"
    using Cons.prems(1) by (auto dest: spec [where x = "Suc k" for k])
  moreover have "\<forall>rid\<in>set ids. find_run ?w1 rid \<noteq> None"
    using Cons.prems(2) by simp
  ultimately have "for_each (get_run e) ids ?w1 =
     (Inr (map (\<lambda>rid. the (find_run ?w1 rid)) ids), ?w1\<lparr>clock := clock ?w1 + length ids\<rparr>)"
    by (rule Cons.IH)
  then show ?case using g r by (simp add: bnd_def ret_def)
qed

lemma for_each_get_run_frame:
  "for_each (get_run e) ids w = (res, w') \<Longrightarrow> \<exists>n. w' = w\<lparr>clock := n\<rparr>"
proof (induction ids arbitrary: w res w')
  case Nil
  then show ?case by (auto simp: ret_def intro: exI [where x = "clock w"])
next
  case (Cons rid ids)
  show ?case
  proof (cases "get_run e rid w")
    case (Pair r1 w1)
    have w1: "w1 = w\<lparr>clock := clock w + 1\<rparr>"
      using Pair by (auto simp: get_run_def request_def split: if_splits option.splits)
    show ?thesis
    proof (cases r1)
      case (Inl err)
      with Pair Cons.prems w1 show ?thesis by (auto simp: bnd_def)
    next
      case (Inr r)
      obtain r2 w2 where rest: "for_each (get_run e) ids w1 = (r2, w2)" by force
      from Cons.IH [OF rest] obtain n where "w2 = w1\<lparr>clock := n\<rparr>" by blast
      with Pair Inr rest Cons.prems w1 show ?thesis
        by (auto simp: bnd_def ret_def split: sum.splits)
    qed
  qed
qed

lemma for_each_get_run_missing:
  "rid \<in> set ids \<Longrightarrow> find_run w rid = None \<Longrightarrow> \<exists>err w'. for_each (get_run e) ids w = (Inl err, w')"
proof (induction ids arbitrary: w)
  case Nil
  then show ?case by simp
next
  case (Cons x ids)
  show ?case
  proof (cases "get_run e x w")
    case (Pair r1 w1)
    have w1: "w1 = w\<lparr>clock := clock w + 1\<rparr>"
      using Pair by (auto simp: get_run_def request_def split: if_splits option.splits)
    show ?thesis
    proof (cases r1)
      case (Inl err)
      with Pair show ?thesis by (simp add: bnd_def)
    next
      case (Inr r)
      have "x \<noteq> rid"
        using Pair Inr Cons.prems(2) by (auto simp: get_run_def request_def split: if_splits option.splits)
      with Cons.prems have "rid \<in> set ids" by simp
      moreover have "find_run w1 rid = None" using w1 Cons.prems(2) by simp
      ultimately obtain err w' where "for_each (get_run e) ids w1 = (Inl err, w')"
        using Cons.IH by blast
      with Pair Inr show ?thesis by (simp add: bnd_def)
    qed
  qed
qed

lemma collect_r2:
  "\<forall>rid \<in> set ids. recorded_r2 w rid \<noteq> None \<Longrightarrow>
   collect (metric ''r2'') (map (\<lambda>rid. the (find_run w rid)) ids) =
     Inr (map (\<lambda>rid. the (recorded_r2 w rid)) ids)"
  by (induction ids) (auto simp: recorded_r2_def metric_def split: option.splits)

lemma recorded_r2_found: "recorded_r2 w rid \<noteq> None \<Longrightarrow> find_run w rid \<noteq> None"
  by (auto simp: recorded_r2_def split: option.splits)

lemma get_best_model_result:
  assumes c: "candidates w = Inr ids" and ne: "ids \<noteq> []"
    and r2: "\<forall>rid \<in> set ids. recorded_r2 w rid \<noteq> None"
    and up: "\<forall>k < length ids. up e (clock w + k)"
  shows "\<exists>r. picked (map (\<lambda>rid. the (recorded_r2 w rid)) ids) r \<and>
           get_best_model e ti w =
             (Inr (), w\<lparr>clock := clock w + length ids,
                        xcom := (xcom w)((ti, ''best_model_run_id'') \<mapsto> Str (ids ! r))\<rparr>)"
proof -
  let ?rs = "map (\<lambda>rid. the (find_run w rid)) ids"
  let ?vs = "map (\<lambda>rid. the (recorded_r2 w rid)) ids"
  let ?w1 = "w\<lparr>clock := clock w + length ids\<rparr>"
  have found: "\<forall>rid \<in> set ids. find_run w rid \<noteq> None"
    using r2 recorded_r2_found by blast
  have fe: "for_each (get_run e) ids w = (Inr ?rs, ?w1)"
    using up found by (rule for_each_get_run)
  have co: "collect (metric ''r2'') ?rs = Inr ?vs"
    using r2 by (rule collect_r2)
  from ne have "?vs \<noteq> []" by simp
  then obtain r where am: "argmax ?vs = Inr r" and fm: "picked ?vs r"
    using argmax_picked by blast
  from fm have rlt: "r < length ids" by (auto dest: picked_bound)
  then have "find_run w (ids ! r) \<noteq> None" using found by simp
  then have rid: "run_id (the (find_run w (ids ! r))) = ids ! r"
    by (auto dest: find_run_id)
  have pull: "xcom_pull_many [''model_lr'', ''model_rf''] ''run_id'' w =
      (Inr (map (\<lambda>t. xcom w (t, ''run_id'')) [''model_lr'', ''model_rf'']), w)"
    by (simp add: xcom_pull_many_def)
  have "get_best_model e ti w =
      (Inr (), ?w1\<lparr>xcom := (xcom ?w1)((ti, ''best_model_run_id'') \<mapsto> Str (ids ! r))\<rparr>)"
    unfolding get_best_model_def
    using c fe co am rlt rid pull
    by (simp add: select_best_def bnd_def lift_def candidates_def item_def xcom_push_def)
  then show ?thesis using fm by auto
qed

lemma get_best_model_frame:
  "get_best_model e ti w = (Inl err, w') \<Longrightarrow> xcom w' = xcom w"
proof -
  assume a: "get_best_model e ti w = (Inl err, w')"
  show ?thesis
  proof (cases "candidates w")
    case (Inl e0)
    with a show ?thesis
      by (simp add: get_best_model_def select_best_def bnd_def lift_def candidates_def
            xcom_pull_many_def)
  next
    case (Inr ids)
    obtain res w1 where fe: "for_each (get_run e) ids w = (res, w1)" by force
    then obtain n where w1: "w1 = w\<lparr>clock := n\<rparr>"
      using for_each_get_run_frame by blast
    from a Inr fe w1 show ?thesis
      by (auto simp: get_best_model_def select_best_def bnd_def lift_def candidates_def
            xcom_pull_many_def xcom_push_def split: sum.splits)
  qed
qed

lemma get_best_model_fails:
  assumes c: "candidates w = Inr ids"
    and bad: "ids = [] \<or> (\<exists>rid \<in> set ids. find_run w rid = None)"
  shows "\<exists>err w'. get_best_model e ti w = (Inl err, w')"
proof (cases "ids = []")
  case True
  with c show ?thesis
    by (simp add: get_best_model_def select_best_def bnd_def lift_def candidates_def
          xcom_pull_many_def ret_def)
next
  case False
  with bad obtain rid where "rid \<in> set ids" "find_run w rid = None" by blast
  then obtain err w' where "for_each (get_run e) ids w = (Inl err, w')"
    using for_each_get_run_missing by blast
  with c show ?thesis
    by (simp add: get_best_model_def select_best_def bnd_def lift_def candidates_def
          xcom_pull_many_def)
qed

subsection \<open>The example world\<close>

lemma candidates_trained: "candidates (trained lr rf) = Inr (lr @ rf)"
  by (simp add: candidates_def trained_def)

lemma recorded_r2_trained:
  "recorded_r2 (trained lr rf) ''a'' = Some (Num (1/2))"
  "recorded_r2 (trained lr rf) ''b'' = Some (Num (9/10))"
  "recorded_r2 (trained lr rf) ''c'' = Some (Num (9/10))"
  "recorded_r2 (trained lr rf) ''n'' = Some NaN"
  "recorded_r2 (trained lr rf) ''d'' = None"
  by (simp_all add: recorded_r2_def find_run_def trained_def scored_run_def)

lemma trained_xcom:
  "xcom (trained lr rf) (''model_lr'', ''run_id'') = Some (StrList lr)"
  "xcom (trained lr rf) (''model_rf'', ''run_id'') = Some (StrList rf)"
  by (simp_all add: trained_def)

lemmas selector_defs =
  get_best_model_def select_best_def bnd_def lift_def ret_def xcom_pull_many_def xcom_push_def
  get_run_def request_def find_run_def metric_def item_def trained_def reliable_def
  scored_run_def

lemma numbers_recorded:
  "\<forall>rid \<in> set ids. \<exists>v. recorded_r2 w rid = Some v \<and> v \<noteq> NaN \<Longrightarrow>
   (\<forall>rid \<in> set ids. recorded_r2 w rid \<noteq> None) \<and>
   NaN \<notin> set (map (\<lambda>rid. the (recorded_r2 w rid)) ids)"
  by force

subsection \<open>The selected run has the largest R2\<close>

text \<open>
  Claim C1, as stated, fails: a run whose recorded "r2" is NaN carries the metric, and
  the scan moves to it and stops. With a candidate of R2 1/2 followed by a candidate of
  R2 NaN the second is published, and its R2 is not greater than or equal to 1/2.
\<close>

theorem get_best_model_nan_counterexample:
  "candidates (trained [''a''] [''n'']) = Inr [''a'', ''n''] \<and>
   recorded_r2 (trained [''a''] [''n'']) ''a'' = Some (Num (1/2)) \<and>
   recorded_r2 (trained [''a''] [''n'']) ''n'' = Some NaN \<and>
   xcom (snd (get_best_model reliable ''get_best_model'' (trained [''a''] [''n''])))
     (''get_best_model'', ''best_model_run_id'') = Some (Str ''n'') \<and>
   \<not> fle (Num (1/2)) NaN"
proof (intro conjI)
  show "candidates (trained [''a''] [''n'']) = Inr [''a'', ''n'']"
    by (simp add: candidates_trained)
  show "recorded_r2 (trained [''a''] [''n'']) ''a'' = Some (Num (1/2))"
    by (rule recorded_r2_trained)
  show "recorded_r2 (trained [''a''] [''n'']) ''n'' = Some NaN"
    by (rule recorded_r2_trained)
  show "xcom (snd (get_best_model reliable ''get_best_model'' (trained [''a''] [''n''])))
     (''get_best_model'', ''best_model_run_id'') = Some (Str ''n'')"
    by (simp add: selector_defs)
  show "\<not> fle (Num (1/2)) NaN" by simp
qed

text \<open>
  Claim C1, amended. When the flattened candidate list is not empty, every candidate is a
  run of the tracking service whose "r2" metric is not NaN, and the service answers the
  lookups, \<open>get_best_model\<close> returns normally and publishes under "best_model_run_id"
  the id of a candidate whose R2 is greater than or equal to the R2 of every candidate.
\<close>

theorem get_best_model_selects_max:
  assumes "candidates w = Inr ids" and "ids \<noteq> []"
    and "\<forall>rid \<in> set ids. \<exists>v. recorded_r2 w rid = Some v \<and> v \<noteq> NaN"
    and "\<forall>k < length ids. up e (clock w + k)"
  shows "\<exists>w' best b. get_best_model e ti w = (Inr (), w') \<and>
           xcom w' (ti, ''best_model_run_id'') = Some (Str best) \<and>
           best \<in> set ids \<and> recorded_r2 w best = Some b \<and>
           (\<forall>rid \<in> set ids. \<exists>v. recorded_r2 w rid = Some v \<and> fle v b)"
proof -
  let ?f = "\<lambda>rid. the (recorded_r2 w rid)"
  let ?vs = "map ?f ids"
  from numbers_recorded [OF assms(3)] have r2: "\<forall>rid \<in> set ids. recorded_r2 w rid \<noteq> None"
    and nn: "NaN \<notin> set ?vs" by blast+
  from get_best_model_result [OF assms(1,2) r2 assms(4), of ti] obtain r where
    pk: "picked ?vs r" and
    res: "get_best_model e ti w =
      (Inr (), w\<lparr>clock := clock w + length ids,
                 xcom := (xcom w)((ti, ''best_model_run_id'') \<mapsto> Str (ids ! r))\<rparr>)"
    by blast
  from picked_numbers [OF nn pk] have fm: "first_max ?vs r" .
  from first_max_map [OF fm] have rlt: "r < length ids"
    and le: "\<forall>j < length ids. fle (?f (ids ! j)) (?f (ids ! r))" by blast+
  from rlt have mem: "ids ! r \<in> set ids" by simp
  with r2 obtain b where b: "recorded_r2 w (ids ! r) = Some b" by auto
  have "\<exists>v. recorded_r2 w rid = Some v \<and> fle v b" if "rid \<in> set ids" for rid
  proof -
    from that obtain j where j: "j < length ids" "ids ! j = rid"
      by (auto simp: in_set_conv_nth)
    from that r2 obtain v where v: "recorded_r2 w rid = Some v" by auto
    from le j(1) have "fle (?f (ids ! j)) (?f (ids ! r))" by blast
    with j v b show ?thesis by simp
  qed
  with res mem b show ?thesis by simp
qed

theorem get_best_model_selects_max_witness:
  "\<exists>w' best b. get_best_model reliable ''get_best_model'' (trained [''a''] [''c'', ''b'']) = (Inr (), w') \<and>
     xcom w' (''get_best_model'', ''best_model_run_id'') = Some (Str best) \<and>
     best \<in> set [''a'', ''c'', ''b''] \<and> recorded_r2 (trained [''a''] [''c'', ''b'']) best = Some b \<and>
     (\<forall>rid \<in> set [''a'', ''c'', ''b'']. \<exists>v. recorded_r2 (trained [''a''] [''c'', ''b'']) rid = Some v \<and> fle v b)"
proof -
  have 1: "candidates (trained [''a''] [''c'', ''b'']) = Inr [''a'', ''c'', ''b'']"
    by (simp add: candidates_trained)
  have 2: "[''a'', ''c'', ''b''] \<noteq> []" by simp
  have 3: "\<forall>rid \<in> set [''a'', ''c'', ''b''].
      \<exists>v. recorded_r2 (trained [''a''] [''c'', ''b'']) rid = Some v \<and> v \<noteq> NaN"
    by (simp add: recorded_r2_trained)
  have 4: "\<forall>k < length [''a'', ''c'', ''b'']. up reliable (clock (trained [''a''] [''c'', ''b'']) + k)"
    by (simp add: reliable_def)
  show ?thesis by (rule get_best_model_selects_max [OF 1 2 3 4])
qed

subsection \<open>Ties go to the first candidate\<close>

text \<open>
  Claim C4, as stated, fails: with candidates of R2 9/10, NaN and 9/10 in this order, two
  runs share the maximum and the first of them is the first candidate, but the run with
  NaN is published.
\<close>

theorem get_best_model_ties_nan_counterexample:
  "xcom (trained [''b''] [''n'', ''c'']) (''model_lr'', ''run_id'') = Some (StrList [''b'']) \<and>
   xcom (trained [''b''] [''n'', ''c'']) (''model_rf'', ''run_id'') = Some (StrList [''n'', ''c'']) \<and>
   recorded_r2 (trained [''b''] [''n'', ''c'']) ''b'' = Some (Num (9/10)) \<and>
   recorded_r2 (trained [''b''] [''n'', ''c'']) ''n'' = Some NaN \<and>
   recorded_r2 (trained [''b''] [''n'', ''c'']) ''c'' = Some (Num (9/10)) \<and>
   xcom (snd (get_best_model reliable ''get_best_model'' (trained [''b''] [''n'', ''c''])))
     (''get_best_model'', ''best_model_run_id'') = Some (Str ''n'')"
proof (intro conjI)
  show "xcom (trained [''b''] [''n'', ''c'']) (''model_lr'', ''run_id'') = Some (StrList [''b''])"
    by (rule trained_xcom)
  show "xcom (trained [''b''] [''n'', ''c'']) (''model_rf'', ''run_id'') = Some (StrList [''n'', ''c''])"
    by (rule trained_xcom)
  show "recorded_r2 (trained [''b''] [''n'', ''c'']) ''b'' = Some (Num (9/10))"
    by (rule recorded_r2_trained)
  show "recorded_r2 (trained [''b''] [''n'', ''c'']) ''n'' = Some NaN"
    by (rule recorded_r2_trained)
  show "recorded_r2 (trained [''b''] [''n'', ''c'']) ''c'' = Some (Num (9/10))"
    by (rule recorded_r2_trained)
  show "xcom (snd (get_best_model reliable ''get_best_model'' (trained [''b''] [''n'', ''c''])))
     (''get_best_model'', ''best_model_run_id'') = Some (Str ''n'')"
    by (simp add: selector_defs)
qed

text \<open>
  Claim C4, amended. The candidates are fetched in the order of the flattened list: the
  linear trainer's ids, then the forest trainer's ids in the order it listed them. When
  no candidate's R2 is NaN, \<open>get_best_model\<close> publishes among them the first one of
  maximal R2: every candidate before the published one has a strictly smaller R2, so
  when several runs share the maximum the one occurring first in the list is returned.
\<close>

theorem get_best_model_first_of_ties:
  assumes lr: "xcom w (''model_lr'', ''run_id'') = Some (StrList lr)"
    and rf: "xcom w (''model_rf'', ''run_id'') = Some (StrList rf)"
    and ne: "lr @ rf \<noteq> []"
    and num: "\<forall>rid \<in> set (lr @ rf). \<exists>v. recorded_r2 w rid = Some v \<and> v \<noteq> NaN"
    and up: "\<forall>k < length (lr @ rf). up e (clock w + k)"
  shows "\<exists>w' r b. get_best_model e ti w = (Inr (), w') \<and> r < length (lr @ rf) \<and>
           xcom w' (ti, ''best_model_run_id'') = Some (Str ((lr @ rf) ! r)) \<and>
           recorded_r2 w ((lr @ rf) ! r) = Some b \<and>
           (\<forall>j < length (lr @ rf). \<exists>v. recorded_r2 w ((lr @ rf) ! j) = Some v \<and> fle v b) \<and>
           (\<forall>j < r. \<exists>v. recorded_r2 w ((lr @ rf) ! j) = Some v \<and> flt v b)"
proof -
  let ?ids = "lr @ rf"
  let ?f = "\<lambda>rid. the (recorded_r2 w rid)"
  have c: "candidates w = Inr ?ids" using lr rf by (simp add: candidates_def)
  from numbers_recorded [OF num] have r2: "\<forall>rid \<in> set ?ids. recorded_r2 w rid \<noteq> None"
    and nn: "NaN \<notin> set (map ?f ?ids)" by blast+
  from get_best_model_result [OF c ne r2 up, of ti] obtain r where
    pk: "picked (map ?f ?ids) r" and
    res: "get_best_model e ti w =
      (Inr (), w\<lparr>clock := clock w + length ?ids,
                 xcom := (xcom w)((ti, ''best_model_run_id'') \<mapsto> Str (?ids ! r))\<rparr>)"
    by blast
  from picked_numbers [OF nn pk] have fm: "first_max (map ?f ?ids) r" .
  from first_max_map [OF fm] have rlt: "r < length ?ids"
    and le: "\<forall>j < length ?ids. fle (?f (?ids ! j)) (?f (?ids ! r))"
    and less: "\<forall>j < r. flt (?f (?ids ! j)) (?f (?ids ! r))" by blast+
  have some: "\<exists>v. recorded_r2 w (?ids ! j) = Some v" if "j < length ?ids" for j
  proof -
    from that have "?ids ! j \<in> set ?ids" by (rule nth_mem)
    with r2 show ?thesis by blast
  qed
  from some [OF rlt] obtain b where b: "recorded_r2 w (?ids ! r) = Some b" by blast
  have all: "\<exists>v. recorded_r2 w (?ids ! j) = Some v \<and> fle v b" if "j < length ?ids" for j
  proof -
    from some [OF that] obtain v where v: "recorded_r2 w (?ids ! j) = Some v" by blast
    from le that have "fle (?f (?ids ! j)) (?f (?ids ! r))" by blast
    with v b show ?thesis by simp
  qed
  have before: "\<exists>v. recorded_r2 w (?ids ! j) = Some v \<and> flt v b" if "j < r" for j
  proof -
    from that rlt have "j < length ?ids" by simp
    from some [OF this] obtain v where v: "recorded_r2 w (?ids ! j) = Some v" by blast
    from less that have "flt (?f (?ids ! j)) (?f (?ids ! r))" by blast
    with v b show ?thesis by simp
  qed
  let ?w' = "w\<lparr>clock := clock w + length ?ids,
                 xcom := (xcom w)((ti, ''best_model_run_id'') \<mapsto> Str (?ids ! r))\<rparr>"
  have pub: "xcom ?w' (ti, ''best_model_run_id'') = Some (Str (?ids ! r))" by simp
  show ?thesis
  proof (intro exI conjI)
    show "get_best_model e ti w = (Inr (), ?w')" by (rule res)
    show "r < length ?ids" by (rule rlt)
    show "xcom ?w' (ti, ''best_model_run_id'') = Some (Str (?ids ! r))" by (rule pub)
    show "recorded_r2 w (?ids ! r) = Some b" by (rule b)
    show "\<forall>j < length ?ids. \<exists>v. recorded_r2 w (?ids ! j) = Some v \<and> fle v b"
      using all by blast
    show "\<forall>j < r. \<exists>v. recorded_r2 w (?ids ! j) = Some v \<and> flt v b"
      using before by blast
  qed
qed

lemma get_best_model_trained:
  "get_best_model reliable ''get_best_model'' (trained [''a''] [''c'', ''b'', ''c'']) =
     (Inr (), (trained [''a''] [''c'', ''b'', ''c''])
        \<lparr>clock := 4,
         xcom := (xcom (trained [''a''] [''c'', ''b'', ''c'']))
                   ((''get_best_model'', ''best_model_run_id'') \<mapsto> Str ''c'')\<rparr>)"
  by (simp add: selector_defs)

theorem get_best_model_first_of_ties_witness:
  "(\<exists>w' r b. get_best_model reliable ''get_best_model'' (trained [''a''] [''c'', ''b'', ''c'']) = (Inr (), w') \<and>
      r < length ([''a''] @ [''c'', ''b'', ''c'']) \<and>
      xcom w' (''get_best_model'', ''best_model_run_id'') = Some (Str (([''a''] @ [''c'', ''b'', ''c'']) ! r)) \<and>
      recorded_r2 (trained [''a''] [''c'', ''b'', ''c'']) (([''a''] @ [''c'', ''b'', ''c'']) ! r) = Some b \<and>
      (\<forall>j < length ([''a''] @ [''c'', ''b'', ''c'']).
          \<exists>v. recorded_r2 (trained [''a''] [''c'', ''b'', ''c'']) (([''a''] @ [''c'', ''b'', ''c'']) ! j) = Some v \<and> fle v b) \<and>
      (\<forall>j < r. \<exists>v. recorded_r2 (trained [''a''] [''c'', ''b'', ''c'']) (([''a''] @ [''c'', ''b'', ''c'']) ! j) = Some v \<and> flt v b)) \<and>
   xcom (snd (get_best_model reliable ''get_best_model'' (trained [''a''] [''c'', ''b'', ''c''])))
     (''get_best_model'', ''best_model_run_id'') = Some (Str ''c'')"
proof -
  let ?w = "trained [''a''] [''c'', ''b'', ''c'']"
  have 1: "[''a''] @ [''c'', ''b'', ''c''] \<noteq> []" by simp
  have 2: "\<forall>rid \<in> set ([''a''] @ [''c'', ''b'', ''c'']). \<exists>v. recorded_r2 ?w rid = Some v \<and> v \<noteq> NaN"
    by (simp add: recorded_r2_trained)
  have 3: "\<forall>k < length ([''a''] @ [''c'', ''b'', ''c'']). up reliable (clock ?w + k)"
    by (simp add: reliable_def)
  have 4: "xcom (snd (get_best_model reliable ''get_best_model'' ?w))
     (''get_best_model'', ''best_model_run_id'') = Some (Str ''c'')"
    by (simp add: get_best_model_trained)
  show ?thesis
    using get_best_model_first_of_ties [OF trained_xcom 1 2 3, of "''get_best_model''"] 4
    by blast
qed

subsection \<open>A failed selection publishes nothing\<close>

text \<open>
  Claim C7. When the candidate list is empty, or one of the candidate ids is not a run of
  the tracking service, \<open>get_best_model\<close> ends with an exception (it handles none),
  and the message store is as it was: no "best_model_run_id" has been pushed.
\<close>

theorem get_best_model_aborts:
  assumes "candidates w = Inr ids"
    and "ids = [] \<or> (\<exists>rid \<in> set ids. find_run w rid = None)"
  shows "\<exists>err w'. get_best_model e ti w = (Inl err, w') \<and> xcom w' = xcom w"
proof -
  from get_best_model_fails [OF assms] obtain err w' where
    "get_best_model e ti w = (Inl err, w')" by blast
  moreover from this have "xcom w' = xcom w" by (rule get_best_model_frame)
  ultimately show ?thesis by blast
qed

theorem get_best_model_aborts_witness:
  "(\<exists>err w'. get_best_model reliable ''get_best_model'' (trained [''a''] [''b'', ''d'']) = (Inl err, w') \<and>
       xcom w' = xcom (trained [''a''] [''b'', ''d''])) \<and>
   (\<exists>err w'. get_best_model reliable ''get_best_model'' (trained [] []) = (Inl err, w') \<and>
       xcom w' = xcom (trained [] []))"
proof -
  have d: "find_run (trained [''a''] [''b'', ''d'']) ''d'' = None"
    by (simp add: find_run_def trained_def scored_run_def)
  have 1: "[''a''] @ [''b'', ''d''] = [] \<or> (\<exists>rid \<in> set ([''a''] @ [''b'', ''d'']). find_run (trained [''a''] [''b'', ''d'']) rid = None)"
    using d by simp
  have 2: "[] @ [] = ([] :: string list) \<or> (\<exists>rid \<in> set ([] @ []). find_run (trained [] []) rid = None)"
    by simp
  show ?thesis
    using get_best_model_aborts [OF candidates_trained 1, of reliable "''get_best_model''"]
      get_best_model_aborts [OF candidates_trained 2, of reliable "''get_best_model''"]
    by blast
qed

subsection \<open>The order of the candidates\<close>

lemma recorded_r2_runs: "runs w1 = runs w2 \<Longrightarrow> recorded_r2 w1 = recorded_r2 w2"
  by (simp add: recorded_r2_def find_run_def fun_eq_iff)

lemma strict_best_perm:
  "strict_best w1 ids1 best \<Longrightarrow> mset ids1 = mset ids2 \<Longrightarrow> runs w1 = runs w2 \<Longrightarrow>
   strict_best w2 ids2 best"
  using mset_eq_setD [of ids1 ids2] recorded_r2_runs [of w1 w2]
  by (simp add: strict_best_def)

lemma strict_bestI:
  "best \<in> set ids \<Longrightarrow> recorded_r2 w best = Some b \<Longrightarrow>
   (\<And>rid. rid \<in> set ids \<Longrightarrow> rid \<noteq> best \<Longrightarrow> \<exists>v. recorded_r2 w rid = Some v \<and> flt v b) \<Longrightarrow>
   strict_best w ids best"
  by (auto simp: strict_best_def)

lemma get_best_model_strict_best:
  assumes c: "candidates w = Inr ids" and sb: "strict_best w ids best"
    and up: "\<forall>k < length ids. up e (clock w + k)"
  shows "\<exists>w'. get_best_model e ti w = (Inr (), w') \<and>
           xcom w' (ti, ''best_model_run_id'') = Some (Str best)"
proof -
  let ?f = "\<lambda>rid. the (recorded_r2 w rid)"
  from sb obtain b where mem: "best \<in> set ids" and b: "recorded_r2 w best = Some b"
    and others: "\<forall>rid \<in> set ids. rid \<noteq> best \<longrightarrow> (\<exists>v. recorded_r2 w rid = Some v \<and> flt v b)"
    by (auto simp: strict_best_def)
  from mem have ne: "ids \<noteq> []" by auto
  have r2: "\<forall>rid \<in> set ids. recorded_r2 w rid \<noteq> None"
    using b others by (metis option.distinct(1))
  from get_best_model_result [OF c ne r2 up, of ti] obtain r where
    pk: "picked (map ?f ids) r" and
    res: "get_best_model e ti w =
      (Inr (), w\<lparr>clock := clock w + length ids,
                 xcom := (xcom w)((ti, ''best_model_run_id'') \<mapsto> Str (ids ! r))\<rparr>)"
    by blast
  from picked_bound [OF pk] have rlt: "r < length ids" by simp
  from mem obtain j where j: "j < length ids" "ids ! j = best"
    by (auto simp: in_set_conv_nth)
  have "ids ! r = best"
  proof (rule ccontr)
    assume neq: "ids ! r \<noteq> best"
    from rlt have "ids ! r \<in> set ids" by simp
    with others neq obtain v where v: "recorded_r2 w (ids ! r) = Some v" "flt v b" by blast
    from v(2) have "v \<noteq> NaN" by (auto simp: flt_def dest: fle_not_NaN)
    with v(1) rlt have "map ?f ids ! r \<noteq> NaN" by simp
    with picked_NaN_or_max [OF pk]
    have "\<forall>j < length (map ?f ids). fle (map ?f ids ! j) (map ?f ids ! r)" by blast
    with j rlt b v(1) have "fle b v" by auto
    with v(2) show False by (auto dest: flt_not_fle)
  qed
  with res show ?thesis by simp
qed

text \<open>
  Claim C3, as stated, fails: with two runs sharing the largest R2, listing them in the
  other order changes the published id.
\<close>

theorem get_best_model_order_counterexample:
  "candidates (trained [''a''] [''b'', ''c'']) = Inr [''a'', ''b'', ''c''] \<and>
   candidates (trained [''a''] [''c'', ''b'']) = Inr [''a'', ''c'', ''b''] \<and>
   mset [''a'', ''b'', ''c''] = mset [''a'', ''c'', ''b''] \<and>
   runs (trained [''a''] [''b'', ''c'']) = runs (trained [''a''] [''c'', ''b'']) \<and>
   xcom (snd (get_best_model reliable ''get_best_model'' (trained [''a''] [''b'', ''c''])))
     (''get_best_model'', ''best_model_run_id'') = Some (Str ''b'') \<and>
   xcom (snd (get_best_model reliable ''get_best_model'' (trained [''a''] [''c'', ''b''])))
     (''get_best_model'', ''best_model_run_id'') = Some (Str ''c'')"
proof (intro conjI)
  show "candidates (trained [''a''] [''b'', ''c'']) = Inr [''a'', ''b'', ''c'']"
    by (simp add: candidates_trained)
  show "candidates (trained [''a''] [''c'', ''b'']) = Inr [''a'', ''c'', ''b'']"
    by (simp add: candidates_trained)
  show "mset [''a'', ''b'', ''c''] = mset [''a'', ''c'', ''b'']" by simp
  show "runs (trained [''a''] [''b'', ''c'']) = runs (trained [''a''] [''c'', ''b''])"
    by (simp add: trained_def)
  show "xcom (snd (get_best_model reliable ''get_best_model'' (trained [''a''] [''b'', ''c''])))
     (''get_best_model'', ''best_model_run_id'') = Some (Str ''b'')"
    by (simp add: selector_defs)
  show "xcom (snd (get_best_model reliable ''get_best_model'' (trained [''a''] [''c'', ''b''])))
     (''get_best_model'', ''best_model_run_id'') = Some (Str ''c'')"
    by (simp add: selector_defs)
qed

text \<open>
  Claim C3, amended. When a single candidate id has an R2 above that of every other
  candidate id, \<open>get_best_model\<close> publishes that id for every order of the candidate
  list: two worlds with the same runs whose candidate lists are permutations of one
  another publish the same "best_model_run_id".
\<close>

theorem get_best_model_order_independent:
  assumes c1: "candidates w1 = Inr ids1" and c2: "candidates w2 = Inr ids2"
    and perm: "mset ids1 = mset ids2" and same: "runs w1 = runs w2"
    and sb: "strict_best w1 ids1 best"
    and up1: "\<forall>k < length ids1. up e (clock w1 + k)"
    and up2: "\<forall>k < length ids2. up e (clock w2 + k)"
  shows "\<exists>w1' w2'. get_best_model e ti w1 = (Inr (), w1') \<and>
           get_best_model e ti w2 = (Inr (), w2') \<and>
           xcom w1' (ti, ''best_model_run_id'') = Some (Str best) \<and>
           xcom w2' (ti, ''best_model_run_id'') = Some (Str best)"
proof -
  from sb perm same have sb2: "strict_best w2 ids2 best" by (rule strict_best_perm)
  from get_best_model_strict_best [OF c1 sb up1, of ti]
    get_best_model_strict_best [OF c2 sb2 up2, of ti]
  show ?thesis by blast
qed

theorem get_best_model_order_independent_witness:
  "\<exists>w1' w2'. get_best_model reliable ''get_best_model'' (trained [''a''] [''b'']) = (Inr (), w1') \<and>
     get_best_model reliable ''get_best_model'' (trained [''b''] [''a'']) = (Inr (), w2') \<and>
     xcom w1' (''get_best_model'', ''best_model_run_id'') = Some (Str ''b'') \<and>
     xcom w2' (''get_best_model'', ''best_model_run_id'') = Some (Str ''b'')"
proof -
  have 1: "mset ([''a''] @ [''b'']) = mset ([''b''] @ [''a''])" by simp
  have 2: "runs (trained [''a''] [''b'']) = runs (trained [''b''] [''a''])"
    by (simp add: trained_def)
  have 3: "strict_best (trained [''a''] [''b'']) ([''a''] @ [''b'']) ''b''"
  proof (rule strict_bestI [where b = "Num (9/10)"])
    show "''b'' \<in> set ([''a''] @ [''b''])" by simp
    show "recorded_r2 (trained [''a''] [''b'']) ''b'' = Some (Num (9/10))"
      by (rule recorded_r2_trained)
    fix rid :: string
    assume "rid \<in> set ([''a''] @ [''b''])" and "rid \<noteq> ''b''"
    then have "rid = ''a''" by simp
    then have "recorded_r2 (trained [''a''] [''b'']) rid = Some (Num (1/2)) \<and>
        flt (Num (1/2)) (Num (9/10))"
      by (simp add: recorded_r2_trained flt_def)
    then show "\<exists>v. recorded_r2 (trained [''a''] [''b'']) rid = Some v \<and> flt v (Num (9/10))" ..
  qed
  have 4: "\<forall>k < length ([''a''] @ [''b'']). up reliable (clock (trained [''a''] [''b'']) + k)"
    by (simp add: reliable_def)
  have 5: "\<forall>k < length ([''b''] @ [''a'']). up reliable (clock (trained [''b''] [''a'']) + k)"
    by (simp add: reliable_def)
  show ?thesis
    by (rule get_best_model_order_independent
          [OF candidates_trained candidates_trained 1 2 3 4 5])
qed

section \<open>Properties of eval\_metrics\<close>

subsection \<open>Float arithmetic\<close>

lemma fmax_ge: "2 ^ 63 \<le> fmax"
proof -
  have "((1::real) / 2) ^ 52 \<le> 1" by (rule power_le_one) simp_all
  then have 1: "(1::real) \<le> 2 - (1 / 2) ^ 52" by simp
  have 2: "(2::real) ^ 63 \<le> 2 ^ 1023" by (rule power_increasing) simp_all
  have "(2::real) ^ 63 = 1 * 2 ^ 63" by simp
  also have "\<dots> \<le> (2 - (1 / 2) ^ 52) * 2 ^ 1023"
    using 1 2 by (intro mult_mono) simp_all
  finally show ?thesis by (simp only: fmax_def)
qed

lemma fmax_ge_1: "1 \<le> fmax"
proof -
  have "(1::real) \<le> 2 ^ 63" by simp
  with fmax_ge show ?thesis by linarith
qed

lemma fl_Num: "\<bar>x\<bar> \<le> 2 ^ 63 \<Longrightarrow> fl x = Num x"
  using fmax_ge by (auto simp: fl_def abs_le_iff)

lemma fl_not_NaN [simp]: "fl x \<noteq> NaN"
  by (simp add: fl_def)

lemma fl_eq_Num: "fl x = Num e \<Longrightarrow> e = x"
  by (auto simp: fl_def split: if_splits)

lemma fnonneg_cases: "fnonneg x \<longleftrightarrow> x = PInf \<or> (\<exists>a. x = Num a \<and> 0 \<le> a)"
  by (cases x) (simp_all add: fnonneg_def)

lemma fl_nonneg: "0 \<le> x \<Longrightarrow> fnonneg (fl x)"
  using fmax_ge_1 by (auto simp: fl_def fnonneg_def)

lemma fsub_Num: "fsub (Num a) (Num b) = fl (a - b)"
  by (simp add: fsub_def)

lemma fsquare_nonneg: "x \<noteq> NaN \<Longrightarrow> fnonneg (fsquare x)"
  by (cases x) (simp_all add: fl_nonneg, simp_all add: fnonneg_def)

lemma fabs_nonneg: "x \<noteq> NaN \<Longrightarrow> fnonneg (fabs x)"
  by (cases x) (simp_all add: fnonneg_def)

lemma fadd_nonneg: "fnonneg x \<Longrightarrow> fnonneg y \<Longrightarrow> fnonneg (fadd x y)"
proof -
  assume "fnonneg x" "fnonneg y"
  then consider "x = PInf" "y \<noteq> NaN" "y \<noteq> NInf" | "y = PInf" "x \<noteq> NaN" "x \<noteq> NInf"
    | a b where "x = Num a" "y = Num b" "0 \<le> a" "0 \<le> b"
    by (auto simp: fnonneg_cases)
  then show ?thesis
  proof cases
    case 1
    then show ?thesis by (cases y) (simp_all add: fnonneg_def)
  next
    case 2
    then show ?thesis by (cases x) (simp_all add: fnonneg_def)
  next
    case 3
    then show ?thesis by (simp add: fl_nonneg)
  qed
qed

lemma foldl_fadd_nonneg:
  "fnonneg acc \<Longrightarrow> \<forall>x \<in> set xs. fnonneg x \<Longrightarrow> fnonneg (foldl fadd acc xs)"
  by (induction xs arbitrary: acc) (simp_all add: fadd_nonneg)

lemma fsum_nonneg: "\<forall>x \<in> set xs. fnonneg x \<Longrightarrow> fnonneg (fsum xs)"
  unfolding fsum_def by (rule foldl_fadd_nonneg) (simp_all add: fnonneg_def)

lemma fdiv_nonneg: "fnonneg x \<Longrightarrow> 0 < n \<Longrightarrow> fnonneg (fdiv x (Num n))"
proof -
  assume "fnonneg x" and n: "0 < n"
  then consider "x = PInf" | a where "x = Num a" "0 \<le> a"
    by (auto simp: fnonneg_cases)
  then show ?thesis
  proof cases
    case 1
    with n show ?thesis by (simp add: fnonneg_def)
  next
    case 2
    with n show ?thesis by (simp add: fl_nonneg)
  qed
qed

lemma fmean_nonneg: "xs \<noteq> [] \<Longrightarrow> \<forall>x \<in> set xs. fnonneg x \<Longrightarrow> fnonneg (fmean xs)"
  unfolding fmean_def by (intro fdiv_nonneg fsum_nonneg) simp_all

lemma fsqrt_nonneg: "fnonneg x \<Longrightarrow> fnonneg (fsqrt x)"
  by (auto simp: fnonneg_cases)

subsection \<open>The shape of the targets\<close>

lemma check_targets_Inr:
  assumes "check_targets a p = Inr k"
  shows "a \<noteq> [] \<and> length a = length p \<and> 0 < k \<and> length a < 2 ^ 63 \<and> k < 2 ^ 63 \<and>
     (\<forall>row \<in> set a. length row = k) \<and> (\<forall>row \<in> set p. length row = k)"
proof -
  from assms have 1: "length a = length p" and 2: "a \<noteq> []" and 3: "length a < 2 ^ 63"
    by (auto simp: check_targets_def split: if_splits)
  with assms have k: "k = length (hd a)"
    by (simp add: check_targets_def Let_def split: if_splits)
  with assms 1 2 3 have "k \<noteq> 0 \<and> k < 2 ^ 63 \<and> list_all (\<lambda>row. length row = k) a \<and>
      list_all (\<lambda>row. length row = k) p"
    by (simp add: check_targets_def Let_def split: if_splits)
  with 1 2 3 show ?thesis by (simp add: list_all_iff)
qed

lemma length_column [simp]: "length (column m j) = length m"
  by (simp add: column_def)

lemma squared_errors_nonneg: "x \<in> set (squared_errors ys ps) \<Longrightarrow> fnonneg x"
  by (auto simp: squared_errors_def fsub_Num intro: fsquare_nonneg)

lemma absolute_errors_nonneg: "x \<in> set (absolute_errors ys ps) \<Longrightarrow> fnonneg x"
  by (auto simp: absolute_errors_def fsub_Num intro: fabs_nonneg)

lemma length_squared_errors [simp]:
  "length (squared_errors ys ps) = min (length ys) (length ps)"
  by (simp add: squared_errors_def)

lemma length_absolute_errors [simp]:
  "length (absolute_errors ys ps) = min (length ys) (length ps)"
  by (simp add: absolute_errors_def)

lemma fmean_squared_errors_nonneg:
  assumes "ys \<noteq> []" and "ps \<noteq> []"
  shows "fnonneg (fmean (squared_errors ys ps))"
proof (rule fmean_nonneg)
  have "length (squared_errors ys ps) \<noteq> 0" using assms by simp
  then show "squared_errors ys ps \<noteq> []" by (simp only: length_0_conv not_False_eq_True)
  show "\<forall>x \<in> set (squared_errors ys ps). fnonneg x" by (auto dest: squared_errors_nonneg)
qed

lemma fmean_absolute_errors_nonneg:
  assumes "ys \<noteq> []" and "ps \<noteq> []"
  shows "fnonneg (fmean (absolute_errors ys ps))"
proof (rule fmean_nonneg)
  have "length (absolute_errors ys ps) \<noteq> 0" using assms by simp
  then show "absolute_errors ys ps \<noteq> []" by (simp only: length_0_conv not_False_eq_True)
  show "\<forall>x \<in> set (absolute_errors ys ps). fnonneg x" by (auto dest: absolute_errors_nonneg)
qed

lemma column_nonempty: "m \<noteq> [] \<Longrightarrow> column m j \<noteq> []"
  by (simp add: column_def)

lemma mse_nonneg:
  assumes "mean_squared_error a p = Inr v"
  shows "fnonneg v"
proof -
  from assms obtain k where k: "check_targets a p = Inr k" and
    v: "v = fmean (map (\<lambda>j. fmean (squared_errors (column a j) (column p j))) [0..<k])"
    by (auto simp: mean_squared_error_def split: sum.splits)
  from check_targets_Inr [OF k] have ne: "a \<noteq> []" "length a = length p" "0 < k" by simp_all
  from ne have "p \<noteq> []" by auto
  with ne have "fnonneg (fmean (squared_errors (column a j) (column p j)))" for j
    by (intro fmean_squared_errors_nonneg column_nonempty)
  then show ?thesis unfolding v using ne(3) by (intro fmean_nonneg) auto
qed

lemma mae_nonneg:
  assumes "mean_absolute_error a p = Inr v"
  shows "fnonneg v"
proof -
  from assms obtain k where k: "check_targets a p = Inr k" and
    v: "v = fmean (map (\<lambda>j. fmean (absolute_errors (column a j) (column p j))) [0..<k])"
    by (auto simp: mean_absolute_error_def split: sum.splits)
  from check_targets_Inr [OF k] have ne: "a \<noteq> []" "length a = length p" "0 < k" by simp_all
  from ne have "p \<noteq> []" by auto
  with ne have "fnonneg (fmean (absolute_errors (column a j) (column p j)))" for j
    by (intro fmean_absolute_errors_nonneg column_nonempty)
  then show ?thesis unfolding v using ne(3) by (intro fmean_nonneg) auto
qed

subsection \<open>The coefficient of determination\<close>

lemma fadd_Num_not_NaN: "x \<noteq> NaN \<Longrightarrow> fadd x (Num a) \<noteq> NaN"
  by (cases x) simp_all

lemma foldl_fadd_Num_not_NaN: "acc \<noteq> NaN \<Longrightarrow> foldl fadd acc (map Num ys) \<noteq> NaN"
  by (induction ys arbitrary: acc) (simp_all add: fadd_Num_not_NaN)

lemma fmean_Num_not_NaN: "ys \<noteq> [] \<Longrightarrow> fmean (map Num ys) \<noteq> NaN"
proof -
  assume "ys \<noteq> []"
  then have n: "0 < real (length ys)" by simp
  have "fsum (map Num ys) \<noteq> NaN" unfolding fsum_def by (rule foldl_fadd_Num_not_NaN) simp
  with n show ?thesis unfolding fmean_def by (cases "fsum (map Num ys)") simp_all
qed

lemma fsub_Num_not_NaN: "m \<noteq> NaN \<Longrightarrow> fsub (Num y) m \<noteq> NaN"
  by (cases m) (simp_all add: fsub_def)

lemma r2_numerator_nonneg: "fnonneg (r2_numerator ys ps)"
  unfolding r2_numerator_def by (rule fsum_nonneg) (auto dest: squared_errors_nonneg)

lemma r2_denominator_nonneg: "ys \<noteq> [] \<Longrightarrow> fnonneg (r2_denominator ys)"
  unfolding r2_denominator_def
  by (rule fsum_nonneg) (auto intro!: fsquare_nonneg fsub_Num_not_NaN fmean_Num_not_NaN)

lemma fdiv_nonneg_nonneg:
  assumes "fnonneg n" and "fnonneg d" and "d \<noteq> Num 0"
  shows "(fdiv n d = NaN \<and> n = PInf \<and> d = PInf) \<or> fnonneg (fdiv n d)"
proof -
  from assms(1) consider "n = PInf" | a where "n = Num a" "0 \<le> a"
    by (auto simp: fnonneg_cases)
  then show ?thesis
  proof cases
    case 1
    from assms(2) consider "d = PInf" | b where "d = Num b" "0 \<le> b"
      by (auto simp: fnonneg_cases)
    then show ?thesis
    proof cases
      case 1
      with \<open>n = PInf\<close> show ?thesis by simp
    next
      case 2
      with \<open>n = PInf\<close> show ?thesis by (simp add: fnonneg_def)
    qed
  next
    case 2
    from assms(2) consider "d = PInf" | b where "d = Num b" "0 \<le> b"
      by (auto simp: fnonneg_cases)
    then show ?thesis
    proof cases
      case 1
      with 2 show ?thesis by (simp add: fnonneg_def)
    next
      case d: 2
      with assms(3) have "0 < b" by simp
      with 2 d show ?thesis by (simp add: fl_nonneg)
    qed
  qed
qed

lemma fl_le_1: "x \<le> 1 \<Longrightarrow> fle (fl x) (Num 1)"
  using fmax_ge_1 by (auto simp: fl_def)

lemma one_minus_nonneg: "fnonneg q \<Longrightarrow> fle (fsub (Num 1) q) (Num 1)"
proof -
  assume "fnonneg q"
  then consider "q = PInf" | a where "q = Num a" "0 \<le> a"
    by (auto simp: fnonneg_cases)
  then show ?thesis
  proof cases
    case 1
    then show ?thesis by (simp add: fsub_def)
  next
    case 2
    then have "1 - a \<le> 1" by simp
    from fl_le_1 [OF this] 2 show ?thesis by (simp add: fsub_def)
  qed
qed

lemma r2_column_at_most_one:
  assumes "ys \<noteq> []"
  shows "at_most_one (r2_column ys ps) \<and>
         (r2_column ys ps = NaN \<longrightarrow> r2_numerator ys ps = PInf \<and> r2_denominator ys = PInf)"
proof (cases "r2_numerator ys ps \<noteq> Num 0 \<and> r2_denominator ys \<noteq> Num 0")
  case True
  then have r: "r2_column ys ps = fsub (Num 1) (fdiv (r2_numerator ys ps) (r2_denominator ys))"
    by (simp add: r2_column_def)
  from fdiv_nonneg_nonneg [OF r2_numerator_nonneg r2_denominator_nonneg [OF assms]] True
  consider "fdiv (r2_numerator ys ps) (r2_denominator ys) = NaN"
      "r2_numerator ys ps = PInf" "r2_denominator ys = PInf"
    | "fnonneg (fdiv (r2_numerator ys ps) (r2_denominator ys))"
    by blast
  then show ?thesis
  proof cases
    case 1
    with r show ?thesis by (simp add: at_most_one_def fsub_def)
  next
    case 2
    from one_minus_nonneg [OF this] r have le: "fle (r2_column ys ps) (Num 1)" by simp
    then have "r2_column ys ps \<noteq> NaN" by (auto dest: fle_not_NaN)
    with le show ?thesis by (simp add: at_most_one_def)
  qed
next
  case False
  then show ?thesis by (auto simp: r2_column_def Let_def at_most_one_def)
qed

text \<open>A sum of scores that are at most one stays below their number.\<close>

lemma fadd_below:
  assumes "acc = NInf \<or> (\<exists>a. acc = Num a \<and> a \<le> c)" and "fle x (Num 1)" and "c + 1 \<le> fmax"
  shows "fadd acc x = NInf \<or> (\<exists>a. fadd acc x = Num a \<and> a \<le> c + 1)"
proof -
  from assms(2) consider "x = NInf" | b where "x = Num b" "b \<le> 1"
    by (cases x) simp_all
  then show ?thesis
  proof cases
    case 1
    with assms(1) show ?thesis by auto
  next
    case 2
    from assms(1) show ?thesis
    proof
      assume "acc = NInf"
      with 2 show ?thesis by simp
    next
      assume "\<exists>a. acc = Num a \<and> a \<le> c"
      then obtain a where a: "acc = Num a" "a \<le> c" by blast
      with 2 assms(3) have "a + b \<le> fmax" by linarith
      with a 2 show ?thesis by (auto simp: fl_def)
    qed
  qed
qed

lemma foldl_fadd_below:
  "acc = NInf \<or> (\<exists>a. acc = Num a \<and> a \<le> c) \<Longrightarrow> \<forall>x \<in> set xs. fle x (Num 1) \<Longrightarrow>
   c + real (length xs) \<le> fmax \<Longrightarrow>
   foldl fadd acc xs = NInf \<or> (\<exists>a. foldl fadd acc xs = Num a \<and> a \<le> c + real (length xs))"
proof (induction xs arbitrary: acc c)
  case Nil
  then show ?case by simp
next
  case (Cons x xs)
  have 1: "fadd acc x = NInf \<or> (\<exists>a. fadd acc x = Num a \<and> a \<le> c + 1)"
    using Cons.prems by (intro fadd_below) auto
  have "foldl fadd (fadd acc x) xs = NInf \<or>
      (\<exists>a. foldl fadd (fadd acc x) xs = Num a \<and> a \<le> (c + 1) + real (length xs))"
    using 1 Cons.prems by (intro Cons.IH) auto
  moreover have "(c + 1) + real (length xs) = c + real (length (x # xs))" by simp
  ultimately show ?case by (simp only: foldl_Cons)
qed

lemma fadd_NaN_right: "fadd x NaN = NaN"
  by (cases x) simp_all

lemma foldl_fadd_NaN_acc: "foldl fadd NaN xs = NaN"
  by (induction xs) simp_all

lemma foldl_fadd_NaN: "NaN \<in> set xs \<Longrightarrow> foldl fadd acc xs = NaN"
proof (induction xs arbitrary: acc)
  case Nil
  then show ?case by simp
next
  case (Cons x xs)
  show ?case
  proof (cases "x = NaN")
    case True
    then show ?thesis by (simp add: fadd_NaN_right foldl_fadd_NaN_acc)
  next
    case False
    with Cons.prems have "NaN \<in> set xs" by simp
    then show ?thesis by (simp add: Cons.IH)
  qed
qed

lemma fmean_scores:
  assumes "xs \<noteq> []" and "\<forall>x \<in> set xs. at_most_one x" and "real (length xs) \<le> fmax"
  shows "at_most_one (fmean xs) \<and> (fmean xs = NaN \<longrightarrow> NaN \<in> set xs)"
proof (cases "NaN \<in> set xs")
  case True
  then have "fsum xs = NaN" unfolding fsum_def by (rule foldl_fadd_NaN)
  then show ?thesis using True by (simp add: fmean_def at_most_one_def)
next
  case False
  with assms(2) have le: "\<forall>x \<in> set xs. fle x (Num 1)" by (auto simp: at_most_one_def)
  from assms(1) have n: "0 < real (length xs)" by simp
  have "foldl fadd (Num 0) xs = NInf \<or>
      (\<exists>a. foldl fadd (Num 0) xs = Num a \<and> a \<le> 0 + real (length xs))"
    using le assms(3) by (intro foldl_fadd_below) simp_all
  then consider "fsum xs = NInf" | a where "fsum xs = Num a" "a \<le> real (length xs)"
    by (auto simp: fsum_def)
  then have "fle (fmean xs) (Num 1)"
  proof cases
    case 1
    with n show ?thesis by (simp add: fmean_def)
  next
    case 2
    with n have "a / real (length xs) \<le> 1" by (simp add: divide_le_eq)
    from fl_le_1 [OF this] 2 n show ?thesis by (simp add: fmean_def)
  qed
  moreover from this have "fmean xs \<noteq> NaN" by (auto dest: fle_not_NaN)
  ultimately show ?thesis by (simp add: at_most_one_def)
qed

lemma real_le_fmax: "n < 2 ^ 63 \<Longrightarrow> real n \<le> fmax"
proof -
  assume "n < 2 ^ 63"
  then have "real n < real (2 ^ 63)" by (simp only: of_nat_less_iff)
  then have "real n \<le> 2 ^ 63" by simp
  with fmax_ge show ?thesis by linarith
qed

lemma r2_score_result:
  assumes k: "check_targets a p = Inr k"
  shows "\<exists>r2. r2_score a p = Inr r2 \<and> at_most_one r2 \<and> (length a < 2 \<longrightarrow> r2 = NaN) \<and>
           (2 \<le> length a \<and> r2 = NaN \<longrightarrow>
              (\<exists>j < k. r2_numerator (column a j) (column p j) = PInf \<and>
                       r2_denominator (column a j) = PInf))"
proof (cases "length a < 2")
  case True
  with check_targets_Inr [OF k] have "r2_score a p = Inr NaN" using k
    by (simp add: r2_score_def)
  with True show ?thesis by (simp add: at_most_one_def)
next
  case False
  let ?xs = "map (\<lambda>j. r2_column (column a j) (column p j)) [0..<k]"
  from check_targets_Inr [OF k] have ne: "a \<noteq> []" and len: "length a = length p"
    and kpos: "0 < k" and kb: "k < 2 ^ 63" by simp_all
  from False len k have r: "r2_score a p = Inr (fmean ?xs)" by (simp add: r2_score_def)
  have col: "at_most_one (r2_column (column a j) (column p j)) \<and>
      (r2_column (column a j) (column p j) = NaN \<longrightarrow>
       r2_numerator (column a j) (column p j) = PInf \<and> r2_denominator (column a j) = PInf)" for j
    using ne by (intro r2_column_at_most_one column_nonempty)
  have "at_most_one (fmean ?xs) \<and> (fmean ?xs = NaN \<longrightarrow> NaN \<in> set ?xs)"
  proof (rule fmean_scores)
    show "?xs \<noteq> []" using kpos by simp
    show "\<forall>x \<in> set ?xs. at_most_one x" using col by auto
    show "real (length ?xs) \<le> fmax" using real_le_fmax [OF kb] by simp
  qed
  moreover have "\<exists>j < k. r2_numerator (column a j) (column p j) = PInf \<and>
      r2_denominator (column a j) = PInf" if "NaN \<in> set ?xs"
  proof -
    from that obtain j where "j < k" "r2_column (column a j) (column p j) = NaN" by auto
    with col [of j] show ?thesis by auto
  qed
  ultimately show ?thesis using r False by auto
qed

subsection \<open>Examples\<close>

lemma upt_2: "[0..<2] = [0, 1]"
  by (simp add: numeral_2_eq_2)

lemmas score_defs =
  mean_squared_error_def mean_absolute_error_def r2_score_def column_def fmean_def fsum_def
  squared_errors_def absolute_errors_def r2_column_def r2_numerator_def r2_denominator_def
  fsub_def Let_def upt_2 fl_Num

lemma check_example: "check_targets [[3, 6], [4, 8]] [[5, 8], [6, 10]] = Inr 2"
  by (simp add: check_targets_def)

lemma check_exact: "check_targets [[3, 6], [4, 8]] [[3, 6], [4, 8]] = Inr 2"
  by (simp add: check_targets_def)

lemma check_one_row: "check_targets [[1, 2]] [[2, 3]] = Inr 2"
  by (simp add: check_targets_def)

lemma mse_example: "mean_squared_error [[3, 6], [4, 8]] [[5, 8], [6, 10]] = Inr (Num 4)"
  by (simp add: check_example score_defs)

lemma mae_example: "mean_absolute_error [[3, 6], [4, 8]] [[5, 8], [6, 10]] = Inr (Num 2)"
  by (simp add: check_example score_defs)

lemma r2_example: "r2_score [[3, 6], [4, 8]] [[5, 8], [6, 10]] = Inr (Num (- 9))"
  by (simp add: check_example score_defs power2_eq_square)

lemma eval_metrics_example:
  "eval_metrics [[3, 6], [4, 8]] [[5, 8], [6, 10]] = Inr (Num 2, Num 2, Num (- 9))"
  by (simp add: eval_metrics_def mse_example mae_example r2_example)

lemma eval_metrics_exact:
  "eval_metrics [[3, 6], [4, 8]] [[3, 6], [4, 8]] = Inr (Num 0, Num 0, Num 1)"
  by (simp add: eval_metrics_def check_exact score_defs)

lemma eval_metrics_one_row:
  "eval_metrics [[1, 2]] [[2, 3]] = Inr (Num 1, Num 1, NaN)"
  by (simp add: eval_metrics_def check_one_row score_defs)

text \<open>Two rows whose sums of squares overflow.\<close>

lemma fmax_less: "fmax < 2 ^ 1024"
proof -
  have "(0::real) < (1 / 2) ^ 52" by simp
  then have "2 - (1 / 2) ^ 52 < (2::real)" by simp
  then have "(2 - (1 / 2) ^ 52) * 2 ^ 1023 < (2::real) * 2 ^ 1023"
    by (intro mult_strict_right_mono) simp_all
  then show ?thesis by (simp add: fmax_def)
qed

lemma fmax_more: "2 ^ 1023 \<le> fmax"
proof -
  have "((1::real) / 2) ^ 52 \<le> 1" by (rule power_le_one) simp_all
  then have "(1::real) * 2 ^ 1023 \<le> (2 - (1 / 2) ^ 52) * 2 ^ 1023"
    by (intro mult_right_mono) simp_all
  then show ?thesis by (simp add: fmax_def)
qed

lemma fl_huge: "fl huge = Num huge" "fl (- huge) = Num (- huge)"
  "fl (huge / 2) = Num (huge / 2)" "fl (- (huge / 2)) = Num (- (huge / 2))"
  using fmax_more by (simp_all add: fl_def huge_def)

lemma fl_huge_squared: "fl (huge\<^sup>2) = PInf" "fl ((huge / 2)\<^sup>2) = PInf"
  using fmax_less by (simp_all add: fl_def huge_def)

lemma fsquare_huge:
  "fsquare (Num huge) = PInf" "fsquare (Num (- huge)) = PInf"
  "fsquare (Num (huge / 2)) = PInf" "fsquare (Num (- (huge / 2))) = PInf"
  using fl_huge_squared by simp_all

lemma upt_1: "[0..<1] = [0]"
  by simp

lemma check_overflow: "check_targets [[0], [huge]] [[huge], [0]] = Inr 1"
  by (simp add: check_targets_def)

lemma numerator_overflow: "r2_numerator [0, huge] [huge, 0] = PInf"
proof -
  have "fsub (Num 0) (Num huge) = Num (- huge)" "fsub (Num huge) (Num 0) = Num huge"
    by (simp_all add: fsub_def fl_huge)
  then show ?thesis
    by (simp add: r2_numerator_def squared_errors_def fsum_def fsquare_huge del: fsquare.simps)
qed

lemma denominator_overflow: "r2_denominator [0, huge] = PInf"
proof -
  have "fl 0 = Num 0" by (simp add: fl_Num)
  then have m: "fmean (map Num [0, huge]) = Num (huge / 2)"
    by (simp add: fmean_def fsum_def fl_huge)
  have "fsub (Num 0) (Num (huge / 2)) = Num (- (huge / 2))"
    by (simp add: fsub_def fl_huge del: fneg.simps) (simp add: fl_huge)
  moreover have "fsub (Num huge) (Num (huge / 2)) = Num (huge / 2)"
    by (simp add: fsub_def fl_huge)
  ultimately show ?thesis unfolding r2_denominator_def m
    by (simp add: fsum_def fsquare_huge del: fsquare.simps)
qed

lemma r2_overflow: "r2_score [[0], [huge]] [[huge], [0]] = Inr NaN"
  by (simp add: r2_score_def check_overflow upt_1 column_def r2_column_def Let_def
        numerator_overflow denominator_overflow fsub_def fmean_def fsum_def)

subsection \<open>Bounds of the scores\<close>

text \<open>
  Claim C9, as stated, fails: for held-out targets of a single row the library's R2 is
  not defined and NaN is returned, which is not less than or equal to 1. NaN is also the
  R2 of two rows whose sums of squares overflow.
\<close>

theorem eval_metrics_one_row_counterexample:
  "eval_metrics [[1, 2]] [[2, 3]] = Inr (Num 1, Num 1, NaN) \<and> \<not> fle NaN (Num 1) \<and>
   r2_score [[0], [huge]] [[huge], [0]] = Inr NaN"
  by (simp add: eval_metrics_one_row r2_overflow)

text \<open>
  Claim C9, amended. For targets and predictions of the same shape, \<open>eval_metrics\<close>
  returns metrics with RMSE and MAE at least 0, and an R2 that is at most 1 or NaN. R2
  is NaN when there are fewer than two rows; with two rows or more it is NaN only when,
  for some column, the residual and the total sum of squares both overflow to infinity.
\<close>

theorem eval_metrics_bounds:
  assumes "check_targets actual pred = Inr k"
  shows "\<exists>rmse mae r2. eval_metrics actual pred = Inr (rmse, mae, r2) \<and>
           fle (Num 0) rmse \<and> fle (Num 0) mae \<and> (r2 = NaN \<or> fle r2 (Num 1)) \<and>
           (length actual < 2 \<longrightarrow> r2 = NaN) \<and>
           (2 \<le> length actual \<and> r2 = NaN \<longrightarrow>
              (\<exists>j < k. r2_numerator (column actual j) (column pred j) = PInf \<and>
                       r2_denominator (column actual j) = PInf))"
proof -
  from assms obtain mse mae where
    1: "mean_squared_error actual pred = Inr mse" and
    2: "mean_absolute_error actual pred = Inr mae"
    by (simp add: mean_squared_error_def mean_absolute_error_def)
  from r2_score_result [OF assms] obtain r2 where
    3: "r2_score actual pred = Inr r2" and 4: "at_most_one r2" and
    5: "length actual < 2 \<longrightarrow> r2 = NaN" and
    6: "2 \<le> length actual \<and> r2 = NaN \<longrightarrow>
          (\<exists>j < k. r2_numerator (column actual j) (column pred j) = PInf \<and>
                   r2_denominator (column actual j) = PInf)"
    by blast
  from 1 2 3 have "eval_metrics actual pred = Inr (fsqrt mse, mae, r2)"
    by (simp add: eval_metrics_def)
  moreover from 1 have "fle (Num 0) (fsqrt mse)"
    using fsqrt_nonneg [OF mse_nonneg] by (simp add: fnonneg_def)
  moreover from 2 have "fle (Num 0) mae" using mae_nonneg by (simp add: fnonneg_def)
  moreover from 4 have "r2 = NaN \<or> fle r2 (Num 1)" by (simp add: at_most_one_def)
  ultimately show ?thesis using 5 6 by blast
qed

theorem eval_metrics_bounds_witness:
  "eval_metrics [[3, 6], [4, 8]] [[5, 8], [6, 10]] = Inr (Num 2, Num 2, Num (- 9)) \<and>
   (\<exists>rmse mae r2. eval_metrics [[3, 6], [4, 8]] [[5, 8], [6, 10]] = Inr (rmse, mae, r2) \<and>
      fle (Num 0) rmse \<and> fle (Num 0) mae \<and> (r2 = NaN \<or> fle r2 (Num 1))) \<and>
   (\<exists>rmse mae r2. eval_metrics [[1, 2]] [[2, 3]] = Inr (rmse, mae, r2) \<and>
      fle (Num 0) rmse \<and> fle (Num 0) mae \<and> r2 = NaN)"
proof -
  have "length [[1, 2 :: real]] < 2" by simp
  with eval_metrics_bounds [OF check_one_row]
  have "\<exists>rmse mae r2. eval_metrics [[1, 2]] [[2, 3]] = Inr (rmse, mae, r2) \<and>
      fle (Num 0) rmse \<and> fle (Num 0) mae \<and> r2 = NaN" by blast
  with eval_metrics_bounds [OF check_example] eval_metrics_example show ?thesis by blast
qed

subsection \<open>Means over the whole matrix\<close>

lemma sum_list_map2_nth:
  "length xs = k \<Longrightarrow> length ys = k \<Longrightarrow>
   sum_list (map2 f xs ys) = sum_list (map (\<lambda>j. f (xs ! j) (ys ! j)) [0..<k])"
proof -
  assume len: "length xs = k" "length ys = k"
  have "map2 f xs ys = map (\<lambda>j. f (xs ! j) (ys ! j)) [0..<k]"
    using len by (intro nth_equalityI) simp_all
  then show ?thesis by simp
qed

lemma sum_list_divide: "sum_list (map (\<lambda>j. g j / c) js) = sum_list (map g js) / (c::real)"
  by (induction js) (simp_all add: add_divide_distrib)

lemma sum_list_columns:
  "length a = length p \<Longrightarrow> \<forall>row \<in> set a. length row = k \<Longrightarrow> \<forall>row \<in> set p. length row = k \<Longrightarrow>
   sum_list (map (\<lambda>j. sum_list (map2 f (column a j) (column p j))) [0..<k]) =
     (sum_list (map2 f (concat a) (concat p)) :: real)"
proof (induction a p rule: list_induct2)
  case Nil
  then show ?case by (simp add: column_def)
next
  case (Cons ra a rp p)
  have ra: "length ra = k" and rp: "length rp = k" using Cons.prems by simp_all
  have "sum_list (map (\<lambda>j. sum_list (map2 f (column (ra # a) j) (column (rp # p) j))) [0..<k])
      = sum_list (map (\<lambda>j. f (ra ! j) (rp ! j) + sum_list (map2 f (column a j) (column p j))) [0..<k])"
    by (simp add: column_def)
  also have "\<dots> = sum_list (map (\<lambda>j. f (ra ! j) (rp ! j)) [0..<k])
      + sum_list (map (\<lambda>j. sum_list (map2 f (column a j) (column p j))) [0..<k])"
    by (simp add: sum_list_addf)
  also have "sum_list (map (\<lambda>j. f (ra ! j) (rp ! j)) [0..<k]) = sum_list (map2 f ra rp)"
    using sum_list_map2_nth [OF ra rp, of f] by simp
  also have "sum_list (map (\<lambda>j. sum_list (map2 f (column a j) (column p j))) [0..<k])
      = sum_list (map2 f (concat a) (concat p))"
    using Cons.prems by (intro Cons.IH) simp_all
  finally show ?case using ra rp by simp
qed

lemma length_concat_rows: "\<forall>row \<in> set a. length row = k \<Longrightarrow> length (concat a) = length a * k"
  by (induction a) simp_all

lemma mean_of_column_means:
  assumes "check_targets a p = Inr k"
  shows "sum_list (map (\<lambda>j. sum_list (map2 f (column a j) (column p j)) / real (length a)) [0..<k])
           / real k = joint_mean f a p"
proof -
  from check_targets_Inr [OF assms] have len: "length a = length p"
    and ra: "\<forall>row \<in> set a. length row = k" and rp: "\<forall>row \<in> set p. length row = k"
    by blast+
  have "sum_list (map (\<lambda>j. sum_list (map2 f (column a j) (column p j)) / real (length a)) [0..<k])
          / real k
      = sum_list (map (\<lambda>j. sum_list (map2 f (column a j) (column p j))) [0..<k])
          / real (length a) / real k"
    by (simp only: sum_list_divide)
  also have "\<dots> = sum_list (map2 f (concat a) (concat p)) / real (length a) / real k"
    using sum_list_columns [OF len ra rp, of f] by simp
  also have "\<dots> = joint_mean f a p"
    using length_concat_rows [OF ra] by (simp add: joint_mean_def)
  finally show ?thesis .
qed

text \<open>A finite sum of floats that are not negative is the exact sum.\<close>

lemma fadd_nonneg_Num:
  "fnonneg x \<Longrightarrow> fnonneg y \<Longrightarrow> fadd x y = Num s \<Longrightarrow> \<exists>a b. x = Num a \<and> y = Num b \<and> s = a + b"
  by (cases x; cases y) (auto simp: fnonneg_def dest: fl_eq_Num)

lemma foldl_fadd_exact:
  "fnonneg acc \<Longrightarrow> \<forall>x \<in> set xs. fnonneg x \<Longrightarrow> foldl fadd acc xs = Num s \<Longrightarrow>
   \<exists>a rs. acc = Num a \<and> xs = map Num rs \<and> s = a + sum_list rs"
proof (induction xs arbitrary: acc)
  case Nil
  then show ?case by simp
next
  case (Cons x xs)
  have "fnonneg (fadd acc x)" using Cons.prems by (intro fadd_nonneg) simp_all
  with Cons.prems obtain a' rs where
    1: "fadd acc x = Num a'" "xs = map Num rs" "s = a' + sum_list rs"
    using Cons.IH [of "fadd acc x"] by auto
  from fadd_nonneg_Num [OF _ _ 1(1)] Cons.prems obtain a b where
    2: "acc = Num a" "x = Num b" "a' = a + b" by auto
  have "x # xs = map Num (b # rs)" using 1(2) 2(2) by simp
  moreover have "s = a + sum_list (b # rs)" using 1(3) 2(3) by simp
  ultimately show ?case using 2(1) by (intro exI [of _ a] exI [of _ "b # rs"]) simp
qed

lemma fmean_exact:
  assumes "xs \<noteq> []" and "\<forall>x \<in> set xs. fnonneg x" and "fmean xs = Num m"
  shows "\<exists>rs. xs = map Num rs \<and> m = sum_list rs / real (length rs)"
proof -
  from assms(1) have n: "0 < real (length xs)" by simp
  from fsum_nonneg [OF assms(2)] consider "fsum xs = PInf" | s where "fsum xs = Num s"
    by (auto simp: fnonneg_cases)
  then show ?thesis
  proof cases
    case 1
    with assms(3) n show ?thesis by (simp add: fmean_def)
  next
    case 2
    then have "foldl fadd (Num 0) xs = Num s" by (simp add: fsum_def)
    from foldl_fadd_exact [OF _ assms(2) this] obtain rs where
      rs: "xs = map Num rs" "s = sum_list rs" by (auto simp: fnonneg_def)
    from assms(3) 2 n have "m = s / real (length xs)"
      by (auto simp: fmean_def dest: fl_eq_Num)
    with rs show ?thesis by auto
  qed
qed

lemma fmean_map2_exact:
  assumes nonneg: "\<And>y p. fnonneg (F y p)"
    and exact: "\<And>y p e. F y p = Num e \<Longrightarrow> e = f y p"
    and len: "length ys = length ps" and ne: "ys \<noteq> []"
    and eq: "fmean (map2 F ys ps) = Num m"
  shows "m = sum_list (map2 f ys ps) / real (length ys)"
proof -
  have ne': "map2 F ys ps \<noteq> []" using ne len by (cases ys; cases ps) simp_all
  have "\<forall>x \<in> set (map2 F ys ps). fnonneg x" using nonneg by auto
  from fmean_exact [OF ne' this eq] obtain rs where
    rs: "map2 F ys ps = map Num rs" and m: "m = sum_list rs / real (length rs)" by blast
  from rs have l: "length rs = length ys" using len
    by (metis length_map length_zip min.idem)
  have "rs = map2 f ys ps"
  proof (rule nth_equalityI)
    show "length rs = length (map2 f ys ps)" using l len by simp
    fix i assume i: "i < length rs"
    with rs l len have "F (ys ! i) (ps ! i) = Num (rs ! i)"
      by (metis (no_types, lifting) length_map nth_map nth_zip case_prod_conv)
    from exact [OF this] i l len show "rs ! i = map2 f ys ps ! i" by simp
  qed
  with m l show ?thesis by simp
qed

lemma fmean_columns_exact:
  assumes k: "check_targets a p = Inr k"
    and nonneg: "\<And>y p. fnonneg (F y p)"
    and exact: "\<And>y p e. F y p = Num e \<Longrightarrow> e = f y p"
  shows "fmean (map (\<lambda>j. fmean (map2 F (column a j) (column p j))) [0..<k]) = PInf \<or>
         fmean (map (\<lambda>j. fmean (map2 F (column a j) (column p j))) [0..<k]) =
           Num (joint_mean f a p)"
proof -
  let ?inner = "\<lambda>j. fmean (map2 F (column a j) (column p j))"
  let ?M = "fmean (map ?inner [0..<k])"
  from check_targets_Inr [OF k] have ne: "a \<noteq> []" and len: "length a = length p"
    and kpos: "0 < k" by simp_all
  have cne: "map2 F (column a j) (column p j) \<noteq> []" for j
    using ne len by (cases a; cases p) (simp_all add: column_def)
  have inn: "fnonneg (?inner j)" for j
    by (rule fmean_nonneg [OF cne]) (use nonneg in auto)
  have one: "map ?inner [0..<k] \<noteq> []" using kpos by simp
  have all: "\<forall>x \<in> set (map ?inner [0..<k]). fnonneg x" using inn by auto
  from fmean_nonneg [OF one all] consider "?M = PInf" | m where "?M = Num m"
    by (auto simp: fnonneg_cases)
  then show ?thesis
  proof cases
    case 1
    then show ?thesis by simp
  next
    case 2
    from fmean_exact [OF one all 2] obtain cs where
      cs: "map ?inner [0..<k] = map Num cs" and m: "m = sum_list cs / real (length cs)"
      by blast
    from cs have lc: "length cs = k" by (metis length_map length_upt minus_nat.diff_0)
    have "cs = map (\<lambda>j. sum_list (map2 f (column a j) (column p j)) / real (length a)) [0..<k]"
    proof (rule nth_equalityI)
      show "length cs = length (map (\<lambda>j. sum_list (map2 f (column a j) (column p j))
          / real (length a)) [0..<k])" using lc by simp
      fix j assume j: "j < length cs"
      with lc have jk: "j < k" by simp
      from cs jk lc have "?inner j = Num (cs ! j)"
        by (metis (no_types, lifting) add_0 length_map length_upt minus_nat.diff_0 nth_map nth_upt)
      have "cs ! j = sum_list (map2 f (column a j) (column p j)) / real (length (column a j))"
      proof (rule fmean_map2_exact [where F = F])
        show "fnonneg (F y p)" for y p by (rule nonneg)
        show "e = f y p" if "F y p = Num e" for y p e using that by (rule exact)
        show "length (column a j) = length (column p j)" using len by simp
        show "column a j \<noteq> []" using ne by (rule column_nonempty)
        show "fmean (map2 F (column a j) (column p j)) = Num (cs ! j)" by fact
      qed
      with jk show "cs ! j = map (\<lambda>j. sum_list (map2 f (column a j) (column p j))
          / real (length a)) [0..<k] ! j" by simp
    qed
    with m lc mean_of_column_means [OF k, of f] have "m = joint_mean f a p" by simp
    with 2 show ?thesis by simp
  qed
qed

lemma squared_error_exact: "fsquare (fsub (Num y) (Num p)) = Num e \<Longrightarrow> e = (y - p)\<^sup>2"
  by (auto simp: fsub_Num fl_def split: if_splits dest: fl_eq_Num)

lemma absolute_error_exact: "fabs (fsub (Num y) (Num p)) = Num e \<Longrightarrow> e = \<bar>y - p\<bar>"
  by (auto simp: fsub_Num fl_def split: if_splits)

lemma mse_joint:
  assumes "mean_squared_error a p = Inr mse"
  shows "mse = PInf \<or> mse = Num (joint_mean (\<lambda>y p. (y - p)\<^sup>2) a p)"
proof -
  from assms obtain k where k: "check_targets a p = Inr k" and
    v: "mse = fmean (map (\<lambda>j. fmean (squared_errors (column a j) (column p j))) [0..<k])"
    by (auto simp: mean_squared_error_def split: sum.splits)
  have "fnonneg (fsquare (fsub (Num y) (Num p)))" for y p
    by (simp add: fsub_Num fsquare_nonneg)
  then show ?thesis unfolding v squared_errors_def
    by (intro fmean_columns_exact [where F = "\<lambda>y p. fsquare (fsub (Num y) (Num p))"
          and f = "\<lambda>y p. (y - p)\<^sup>2", OF k]) (auto dest: squared_error_exact)
qed

lemma mae_joint:
  assumes "mean_absolute_error a p = Inr mae"
  shows "mae = PInf \<or> mae = Num (joint_mean (\<lambda>y p. \<bar>y - p\<bar>) a p)"
proof -
  from assms obtain k where k: "check_targets a p = Inr k" and
    v: "mae = fmean (map (\<lambda>j. fmean (absolute_errors (column a j) (column p j))) [0..<k])"
    by (auto simp: mean_absolute_error_def split: sum.splits)
  have "fnonneg (fabs (fsub (Num y) (Num p)))" for y p
    by (simp add: fsub_Num fabs_nonneg)
  then show ?thesis unfolding v absolute_errors_def
    by (intro fmean_columns_exact [where F = "\<lambda>y p. fabs (fsub (Num y) (Num p))"
          and f = "\<lambda>y p. \<bar>y - p\<bar>", OF k]) (auto dest: absolute_error_exact)
qed

section \<open>Properties of the trainers\<close>

subsection \<open>One forest run\<close>

lemma rf_run_Inr:
  assumes "rf_run e d n md rs w = (Inr rs', w')"
  shows "\<exists>r. runs w' = runs w @ [r] \<and> rf_result e d n md (length (runs w)) r \<and>
           rs' = rs @ [run_id r] \<and> xcom w' = xcom w \<and> registry w' = registry w"
  using assms
  unfolding rf_run_def with_run_def bnd_def start_run_def end_run_def log_param_def
    log_metric_def log_model_def request_def update_run_def lift_def ret_def rf_result_def
  by (auto split: if_splits sum.splits prod.splits)

lemma rf_run_xcom:
  assumes "rf_run e d n md rs w = (res, w')"
  shows "xcom w' = xcom w"
  using assms
  unfolding rf_run_def with_run_def bnd_def start_run_def end_run_def log_param_def
    log_metric_def log_model_def request_def update_run_def lift_def ret_def
  by (auto split: if_splits sum.splits prod.splits)

subsection \<open>The loops and the data\<close>

lemma rf_depths_xcom:
  "rf_depths e d n ds rs w = (res, w') \<Longrightarrow> xcom w' = xcom w"
proof (induction ds arbitrary: rs w)
  case Nil
  then show ?case by (simp add: ret_def)
next
  case (Cons md ds)
  obtain r1 w1 where 1: "rf_run e d n md rs w = (r1, w1)" by force
  then have x1: "xcom w1 = xcom w" by (rule rf_run_xcom)
  show ?case
  proof (cases r1)
    case (Inl err)
    with 1 Cons.prems x1 show ?thesis by (simp add: bnd_def)
  next
    case (Inr rs1)
    with 1 Cons.prems have "rf_depths e d n ds rs1 w1 = (res, w')" by (simp add: bnd_def)
    then have "xcom w' = xcom w1" by (rule Cons.IH)
    with x1 show ?thesis by simp
  qed
qed

lemma rf_grid_xcom:
  "rf_grid e d ns rs w = (res, w') \<Longrightarrow> xcom w' = xcom w"
proof (induction ns arbitrary: rs w)
  case Nil
  then show ?case by (simp add: ret_def)
next
  case (Cons n ns)
  obtain r1 w1 where 1: "rf_depths e d n [4, 10] rs w = (r1, w1)" by force
  then have x1: "xcom w1 = xcom w" by (rule rf_depths_xcom)
  show ?case
  proof (cases r1)
    case (Inl err)
    with 1 Cons.prems x1 show ?thesis by (simp add: bnd_def)
  next
    case (Inr rs1)
    with 1 Cons.prems have "rf_grid e d ns rs1 w1 = (res, w')" by (simp add: bnd_def)
    then have "xcom w' = xcom w1" by (rule Cons.IH)
    with x1 show ?thesis by simp
  qed
qed

lemma load_data_frame:
  assumes "load_data e w = (res, w')"
  shows "w' = w\<lparr>clock := clock w + 1\<rparr>"
  using assms
  unfolding load_data_def bnd_def xcom_pull_def download_artifacts_def request_def lift_def
  by (auto split: if_splits sum.splits prod.splits option.splits xval.splits)

subsection \<open>The forest trainer as a whole\<close>

lemma rf_grid_Inr:
  assumes "rf_grid e d [4, 25] [] w = (Inr rs, w')"
  shows "\<exists>r1 r2 r3 r4. runs w' = runs w @ [r1, r2, r3, r4] \<and>
           rf_result e d 4 4 (length (runs w)) r1 \<and>
           rf_result e d 4 10 (length (runs w) + 1) r2 \<and>
           rf_result e d 25 4 (length (runs w) + 2) r3 \<and>
           rf_result e d 25 10 (length (runs w) + 3) r4 \<and>
           rs = [run_id r1, run_id r2, run_id r3, run_id r4] \<and>
           xcom w' = xcom w \<and> registry w' = registry w"
proof -
  from assms obtain rs1 w1 rs2 w2 rs3 w3 where
    1: "rf_run e d 4 4 [] w = (Inr rs1, w1)" and
    2: "rf_run e d 4 10 rs1 w1 = (Inr rs2, w2)" and
    3: "rf_run e d 25 4 rs2 w2 = (Inr rs3, w3)" and
    4: "rf_run e d 25 10 rs3 w3 = (Inr rs, w')"
    by (auto simp: bnd_def ret_def split: sum.splits prod.splits)
  from rf_run_Inr [OF 1] obtain r1 where
    r1: "runs w1 = runs w @ [r1]" "rf_result e d 4 4 (length (runs w)) r1"
      "rs1 = [] @ [run_id r1]" "xcom w1 = xcom w" "registry w1 = registry w" by blast
  from rf_run_Inr [OF 2] obtain r2 where
    r2: "runs w2 = runs w1 @ [r2]" "rf_result e d 4 10 (length (runs w1)) r2"
      "rs2 = rs1 @ [run_id r2]" "xcom w2 = xcom w1" "registry w2 = registry w1" by blast
  from rf_run_Inr [OF 3] obtain r3 where
    r3: "runs w3 = runs w2 @ [r3]" "rf_result e d 25 4 (length (runs w2)) r3"
      "rs3 = rs2 @ [run_id r3]" "xcom w3 = xcom w2" "registry w3 = registry w2" by blast
  from rf_run_Inr [OF 4] obtain r4 where
    r4: "runs w' = runs w3 @ [r4]" "rf_result e d 25 10 (length (runs w3)) r4"
      "rs = rs3 @ [run_id r4]" "xcom w' = xcom w3" "registry w' = registry w3" by blast
  show ?thesis
  proof (intro exI conjI)
    show "runs w' = runs w @ [r1, r2, r3, r4]" using r1(1) r2(1) r3(1) r4(1) by simp
    show "rf_result e d 4 4 (length (runs w)) r1" by (rule r1(2))
    show "rf_result e d 4 10 (length (runs w) + 1) r2" using r2(2) r1(1) by simp
    show "rf_result e d 25 4 (length (runs w) + 2) r3" using r3(2) r2(1) r1(1) by simp
    show "rf_result e d 25 10 (length (runs w) + 3) r4" using r4(2) r3(1) r2(1) r1(1) by (simp add: numeral_3_eq_3)
    show "rs = [run_id r1, run_id r2, run_id r3, run_id r4]"
      using r1(3) r2(3) r3(3) r4(3) by simp
    show "xcom w' = xcom w" using r1(4) r2(4) r3(4) r4(4) by simp
    show "registry w' = registry w" using r1(5) r2(5) r3(5) r4(5) by simp
  qed
qed

lemma make_rf_Inr:
  assumes "make_rf e ti w = (Inr (), w')"
  shows "\<exists>d r1 r2 r3 r4. fst (load_data e w) = Inr d \<and> runs w' = runs w @ [r1, r2, r3, r4] \<and>
           rf_result e d 4 4 (length (runs w)) r1 \<and>
           rf_result e d 4 10 (length (runs w) + 1) r2 \<and>
           rf_result e d 25 4 (length (runs w) + 2) r3 \<and>
           rf_result e d 25 10 (length (runs w) + 3) r4 \<and>
           xcom w' = (xcom w)((ti, ''run_id'') \<mapsto>
                       StrList [run_id r1, run_id r2, run_id r3, run_id r4])"
proof -
  from assms obtain d w1 rs w2 where
    1: "load_data e w = (Inr d, w1)" and
    2: "rf_grid e d [4, 25] [] w1 = (Inr rs, w2)" and
    3: "xcom_push ti ''run_id'' (StrList rs) w2 = (Inr (), w')"
    unfolding make_rf_def bnd_def by (auto split: sum.splits prod.splits)
  from load_data_frame [OF 1] have w1: "w1 = w\<lparr>clock := clock w + 1\<rparr>" .
  from rf_grid_Inr [OF 2] obtain r1 r2 r3 r4 where
    g: "runs w2 = runs w1 @ [r1, r2, r3, r4]"
      "rf_result e d 4 4 (length (runs w1)) r1"
      "rf_result e d 4 10 (length (runs w1) + 1) r2"
      "rf_result e d 25 4 (length (runs w1) + 2) r3"
      "rf_result e d 25 10 (length (runs w1) + 3) r4"
      "rs = [run_id r1, run_id r2, run_id r3, run_id r4]"
      "xcom w2 = xcom w1" by blast
  from 3 have w': "w' = w2\<lparr>xcom := (xcom w2)((ti, ''run_id'') \<mapsto> StrList rs)\<rparr>"
    by (simp add: xcom_push_def)
  show ?thesis
  proof (intro exI conjI)
    show "fst (load_data e w) = Inr d" using 1 by simp
    show "runs w' = runs w @ [r1, r2, r3, r4]" using w' g(1) w1 by simp
    show "rf_result e d 4 4 (length (runs w)) r1" using g(2) w1 by simp
    show "rf_result e d 4 10 (length (runs w) + 1) r2" using g(3) w1 by simp
    show "rf_result e d 25 4 (length (runs w) + 2) r3" using g(4) w1 by simp
    show "rf_result e d 25 10 (length (runs w) + 3) r4" using g(5) w1 by simp
    show "xcom w' = (xcom w)((ti, ''run_id'') \<mapsto>
            StrList [run_id r1, run_id r2, run_id r3, run_id r4])"
      using w' g(6) g(7) w1 by simp
  qed
qed

lemma make_rf_Inl:
  assumes "make_rf e ti w = (Inl err, w')"
  shows "xcom w' = xcom w"
proof -
  obtain r1 w1 where 1: "load_data e w = (r1, w1)" by force
  from load_data_frame [OF 1] have x1: "xcom w1 = xcom w" by simp
  show ?thesis
  proof (cases r1)
    case (Inl e1)
    with 1 assms x1 show ?thesis by (simp add: make_rf_def bnd_def)
  next
    case (Inr d)
    obtain r2 w2 where 2: "rf_grid e d [4, 25] [] w1 = (r2, w2)" by force
    from rf_grid_xcom [OF 2] have x2: "xcom w2 = xcom w1" .
    show ?thesis
    proof (cases r2)
      case (Inl e2)
      with 1 2 Inr assms x1 x2 show ?thesis by (simp add: make_rf_def bnd_def)
    next
      case rs: (Inr rs)
      with 1 2 Inr assms show ?thesis by (simp add: make_rf_def bnd_def xcom_push_def)
    qed
  qed
qed

subsection \<open>The example execution\<close>

lemmas service_defs =
  with_run_def bnd_def start_run_def end_run_def log_param_def log_metric_def log_model_def
  log_artifact_def request_def update_run_def lift_def ret_def xcom_push_def xcom_pull_def
  download_artifacts_def load_data_def find_run_def

lemma task_process_initial: "task_process reliable initial = (Inr (), published)"
  by (simp add: task_process_def process_data_def service_defs reliable_def initial_def
        published_def process_run_def path_join_def)

lemma task_lr_published: "task_lr reliable published = (Inr (), lr_trained)"
  by (simp add: task_lr_def make_lr_def service_defs reliable_def published_def lr_trained_def
        process_run_def lr_run_def eval_metrics_exact)

lemma task_rf_lr_trained: "task_rf reliable lr_trained = (Inr (), all_trained)"
  by (simp add: task_rf_def make_rf_def service_defs reliable_def lr_trained_def all_trained_def
        process_run_def lr_run_def rf_run_def rf_run_of_def eval_metrics_example)

text \<open>With a single held-out row the linear trainer returns and has logged NaN as "r2".\<close>

lemma trainer_logs_nan:
  "fst (task_lr tiny published) = Inr () \<and>
   recorded_r2 (snd (task_lr tiny published)) ''rr'' = Some NaN"
  by (simp add: task_lr_def make_lr_def service_defs tiny_def reliable_def published_def
        process_run_def eval_metrics_one_row recorded_r2_def)

subsection \<open>The linear trainer\<close>

lemma make_lr_Inr:
  assumes "make_lr e ti w = (Inr (), w')"
  shows "\<exists>d y_predict rmse mae r2 r.
           fst (load_data e w) = Inr d \<and> fit_predict e LinearRegression d = Inr y_predict \<and>
           eval_metrics (y_test d) y_predict = Inr (rmse, mae, r2) \<and>
           runs w' = runs w @ [r] \<and> run_id r = gen_id e (length (runs w)) \<and>
           run_name r = ''lr'' \<and> status r = FINISHED \<and>
           metrics r = [''rmse'' \<mapsto> rmse, ''mae'' \<mapsto> mae, ''r2'' \<mapsto> r2] \<and>
           xcom w' = (xcom w)((ti, ''run_id'') \<mapsto> StrList [run_id r])"
proof -
  from assms obtain d w1 where
    1: "load_data e w = (Inr d, w1)" and
    2: "with_run e ''lr'' (\<lambda>run.
       bnd (lift (fit_predict e LinearRegression d)) (\<lambda>y_predict.
       bnd (lift (eval_metrics (y_test d) y_predict)) (\<lambda>(rmse, mae, r2).
       bnd (log_metric e run ''rmse'' rmse) (\<lambda>_.
       bnd (log_metric e run ''mae'' mae) (\<lambda>_.
       bnd (log_metric e run ''r2'' r2) (\<lambda>_.
       bnd (log_model e run LinearRegression ''model'') (\<lambda>_.
       xcom_push ti ''run_id'' (StrList [info_run_id run])))))))) w1 = (Inr (), w')"
    unfolding make_lr_def bnd_def [of "load_data e"] by (auto split: sum.splits prod.splits)
  from load_data_frame [OF 1] have w1: "w1 = w\<lparr>clock := clock w + 1\<rparr>" .
  from 2 have "\<exists>y_predict rmse mae r2 r.
           fit_predict e LinearRegression d = Inr y_predict \<and>
           eval_metrics (y_test d) y_predict = Inr (rmse, mae, r2) \<and>
           runs w' = runs w1 @ [r] \<and> run_id r = gen_id e (length (runs w1)) \<and>
           run_name r = ''lr'' \<and> status r = FINISHED \<and>
           metrics r = [''rmse'' \<mapsto> rmse, ''mae'' \<mapsto> mae, ''r2'' \<mapsto> r2] \<and>
           xcom w' = (xcom w1)((ti, ''run_id'') \<mapsto> StrList [run_id r])"
    unfolding with_run_def bnd_def start_run_def end_run_def
      log_metric_def log_model_def request_def update_run_def lift_def ret_def xcom_push_def
    by (auto split: if_splits sum.splits prod.splits)
  with w1 1 show ?thesis by simp
qed

subsection \<open>Four runs, in the order of the grid\<close>

lemma rf_result_facts:
  "rf_result e d n md i r \<Longrightarrow>
     run_name r = ''rf'' \<and> status r = FINISHED \<and> run_id r = gen_id e i \<and>
     grid_of r = (Some n, Some md) \<and> dom (params r) = {''n_estimators'', ''max_depth''} \<and>
     dom (metrics r) = {''rmse'', ''mae'', ''r2''}"
  by (auto simp: rf_result_def grid_of_def split: if_splits)

text \<open>
  Claim C2. A call of \<open>make_rf\<close> that returns has created exactly four runs, after the
  runs that existed: in the order of creation their hyperparameters are (4, 4), (4, 10),
  (25, 4) and (25, 10), the outer loop over n_estimators and the inner loop over
  max_depth; each run is named "rf", is finished and has recorded both hyperparameters
  as params and the three metrics; their ids, in this order, are the pushed list.
\<close>

theorem make_rf_four_runs:
  assumes "make_rf e ti w = (Inr (), w')"
  shows "take (length (runs w)) (runs w') = runs w \<and>
         length (new_runs w w') = 4 \<and>
         map grid_of (new_runs w w') =
           [(Some 4, Some 4), (Some 4, Some 10), (Some 25, Some 4), (Some 25, Some 10)] \<and>
         (\<forall>r \<in> set (new_runs w w').
            run_name r = ''rf'' \<and> status r = FINISHED \<and>
            dom (params r) = {''n_estimators'', ''max_depth''} \<and>
            dom (metrics r) = {''rmse'', ''mae'', ''r2''}) \<and>
         xcom w' = (xcom w)((ti, ''run_id'') \<mapsto> StrList (map run_id (new_runs w w')))"
proof -
  from make_rf_Inr [OF assms] obtain d r1 r2 r3 r4 where
    rs: "runs w' = runs w @ [r1, r2, r3, r4]" and
    1: "rf_result e d 4 4 (length (runs w)) r1" and
    2: "rf_result e d 4 10 (length (runs w) + 1) r2" and
    3: "rf_result e d 25 4 (length (runs w) + 2) r3" and
    4: "rf_result e d 25 10 (length (runs w) + 3) r4" and
    x: "xcom w' = (xcom w)((ti, ''run_id'') \<mapsto>
                       StrList [run_id r1, run_id r2, run_id r3, run_id r4])"
    by blast
  have new: "new_runs w w' = [r1, r2, r3, r4]" using rs by (simp add: new_runs_def)
  note f = rf_result_facts [OF 1] rf_result_facts [OF 2] rf_result_facts [OF 3]
    rf_result_facts [OF 4]
  show ?thesis
  proof (intro conjI)
    show "take (length (runs w)) (runs w') = runs w" using rs by simp
    show "length (new_runs w w') = 4" using new by simp
    show "map grid_of (new_runs w w') =
           [(Some 4, Some 4), (Some 4, Some 10), (Some 25, Some 4), (Some 25, Some 10)]"
      using new f by simp
    show "\<forall>r \<in> set (new_runs w w').
            run_name r = ''rf'' \<and> status r = FINISHED \<and>
            dom (params r) = {''n_estimators'', ''max_depth''} \<and>
            dom (metrics r) = {''rmse'', ''mae'', ''r2''}"
      using new f by simp
    show "xcom w' = (xcom w)((ti, ''run_id'') \<mapsto> StrList (map run_id (new_runs w w')))"
      using new x by simp
  qed
qed

lemma new_runs_all_trained:
  "new_runs lr_trained all_trained =
     [rf_run_of ''rrr'' FINISHED 4 4, rf_run_of ''rrrr'' FINISHED 4 10,
      rf_run_of ''rrrrr'' FINISHED 25 4, rf_run_of ''rrrrrr'' FINISHED 25 10]"
  by (simp add: new_runs_def lr_trained_def all_trained_def)

theorem make_rf_four_runs_witness:
  "make_rf reliable ''model_rf'' lr_trained = (Inr (), all_trained) \<and>
   length (new_runs lr_trained all_trained) = 4 \<and>
   map grid_of (new_runs lr_trained all_trained) =
     [(Some 4, Some 4), (Some 4, Some 10), (Some 25, Some 4), (Some 25, Some 10)] \<and>
   xcom all_trained (''model_rf'', ''run_id'') =
     Some (StrList [''rrr'', ''rrrr'', ''rrrrr'', ''rrrrrr''])"
proof -
  have h: "make_rf reliable ''model_rf'' lr_trained = (Inr (), all_trained)"
    using task_rf_lr_trained by (simp add: task_rf_def)
  from make_rf_four_runs [OF h] show ?thesis
    using h by (simp add: new_runs_all_trained rf_run_of_def)
qed

subsection \<open>No partial list of forest runs\<close>

text \<open>
  Claim C10. \<open>make_rf\<close> pushes its message once, after the loops: a call that ends
  with an exception, whatever failed in whichever iteration, leaves the message store as
  it was, and a call that returns has pushed a list of four ids under "run_id".
\<close>

theorem make_rf_no_partial_message:
  assumes "make_rf e ti w = (res, w')"
  shows "case res of
           Inl err \<Rightarrow> xcom w' = xcom w
         | Inr u \<Rightarrow> \<exists>a b c d. xcom w' = (xcom w)((ti, ''run_id'') \<mapsto> StrList [a, b, c, d])"
proof (cases res)
  case (Inl err)
  with assms have "xcom w' = xcom w" by (auto dest: make_rf_Inl)
  with Inl show ?thesis by simp
next
  case (Inr u)
  with assms have "make_rf e ti w = (Inr (), w')" by simp
  from make_rf_Inr [OF this] Inr show ?thesis by auto
qed

lemma make_rf_flaky: "make_rf flaky ''model_rf'' lr_trained = (Inl ValueError, half_trained)"
  by (simp add: make_rf_def service_defs flaky_def reliable_def lr_trained_def half_trained_def
        process_run_def lr_run_def rf_run_def rf_run_of_def eval_metrics_example)

theorem make_rf_no_partial_message_witness:
  "make_rf flaky ''model_rf'' lr_trained = (Inl ValueError, half_trained) \<and>
   length (runs half_trained) = length (runs lr_trained) + 3 \<and>
   xcom half_trained = xcom lr_trained \<and>
   xcom half_trained (''model_rf'', ''run_id'') = None"
proof -
  from make_rf_no_partial_message [OF make_rf_flaky]
  have "xcom half_trained = xcom lr_trained" by simp
  moreover have "xcom lr_trained (''model_rf'', ''run_id'') = None"
    by (simp add: lr_trained_def)
  moreover have "length (runs half_trained) = length (runs lr_trained) + 3"
    by (simp add: half_trained_def lr_trained_def)
  ultimately show ?thesis using make_rf_flaky by simp
qed

subsection \<open>Five candidates\<close>

lemma trainers_lr_then_rf:
  assumes lr: "make_lr e ''model_lr'' w = (Inr (), w1)"
    and rf: "make_rf e ''model_rf'' w1 = (Inr (), w2)"
  shows "\<exists>l r1 r2 r3 r4. new_runs w w2 = [l, r1, r2, r3, r4] \<and> run_name l = ''lr'' \<and>
           run_name r1 = ''rf'' \<and> run_name r2 = ''rf'' \<and> run_name r3 = ''rf'' \<and>
           run_name r4 = ''rf'' \<and>
           xcom w2 (''model_lr'', ''run_id'') = Some (StrList [run_id l]) \<and>
           xcom w2 (''model_rf'', ''run_id'') =
             Some (StrList [run_id r1, run_id r2, run_id r3, run_id r4])"
proof -
  from make_lr_Inr [OF lr] obtain l where
    l: "runs w1 = runs w @ [l]" "run_name l = ''lr''"
      "xcom w1 = (xcom w)((''model_lr'', ''run_id'') \<mapsto> StrList [run_id l])" by blast
  from make_rf_Inr [OF rf] obtain d r1 r2 r3 r4 where
    r: "runs w2 = runs w1 @ [r1, r2, r3, r4]"
      "rf_result e d 4 4 (length (runs w1)) r1" "rf_result e d 4 10 (length (runs w1) + 1) r2"
      "rf_result e d 25 4 (length (runs w1) + 2) r3" "rf_result e d 25 10 (length (runs w1) + 3) r4"
      "xcom w2 = (xcom w1)((''model_rf'', ''run_id'') \<mapsto>
                   StrList [run_id r1, run_id r2, run_id r3, run_id r4])" by blast
  have "new_runs w w2 = [l, r1, r2, r3, r4]" using l(1) r(1) by (simp add: new_runs_def)
  moreover have "xcom w2 (''model_lr'', ''run_id'') = Some (StrList [run_id l])"
    using l(3) r(6) by simp
  moreover have "xcom w2 (''model_rf'', ''run_id'') =
      Some (StrList [run_id r1, run_id r2, run_id r3, run_id r4])"
    using r(6) by simp
  ultimately show ?thesis
    using l(2) r(2-5) by (auto simp: rf_result_def)
qed

lemma trainers_rf_then_lr:
  assumes rf: "make_rf e ''model_rf'' w = (Inr (), w1)"
    and lr: "make_lr e ''model_lr'' w1 = (Inr (), w2)"
  shows "\<exists>l r1 r2 r3 r4. new_runs w w2 = [r1, r2, r3, r4, l] \<and> run_name l = ''lr'' \<and>
           run_name r1 = ''rf'' \<and> run_name r2 = ''rf'' \<and> run_name r3 = ''rf'' \<and>
           run_name r4 = ''rf'' \<and>
           xcom w2 (''model_lr'', ''run_id'') = Some (StrList [run_id l]) \<and>
           xcom w2 (''model_rf'', ''run_id'') =
             Some (StrList [run_id r1, run_id r2, run_id r3, run_id r4])"
proof -
  from make_rf_Inr [OF rf] obtain d r1 r2 r3 r4 where
    r: "runs w1 = runs w @ [r1, r2, r3, r4]"
      "rf_result e d 4 4 (length (runs w)) r1" "rf_result e d 4 10 (length (runs w) + 1) r2"
      "rf_result e d 25 4 (length (runs w) + 2) r3" "rf_result e d 25 10 (length (runs w) + 3) r4"
      "xcom w1 = (xcom w)((''model_rf'', ''run_id'') \<mapsto>
                   StrList [run_id r1, run_id r2, run_id r3, run_id r4])" by blast
  from make_lr_Inr [OF lr] obtain l where
    l: "runs w2 = runs w1 @ [l]" "run_name l = ''lr''"
      "xcom w2 = (xcom w1)((''model_lr'', ''run_id'') \<mapsto> StrList [run_id l])" by blast
  have "new_runs w w2 = [r1, r2, r3, r4, l]" using l(1) r(1) by (simp add: new_runs_def)
  moreover have "xcom w2 (''model_lr'', ''run_id'') = Some (StrList [run_id l])"
    using l(3) by simp
  moreover have "xcom w2 (''model_rf'', ''run_id'') =
      Some (StrList [run_id r1, run_id r2, run_id r3, run_id r4])"
    using l(3) r(6) by simp
  ultimately show ?thesis
    using l(2) r(2-5) by (auto simp: rf_result_def)
qed

lemma for_each_get_run_Inr:
  "for_each (get_run e) ids w = (Inr rs, w') \<Longrightarrow>
   w' = w\<lparr>clock := clock w + length ids\<rparr> \<and> map Some rs = map (find_run w) ids"
proof (induction ids arbitrary: w rs w')
  case Nil
  then show ?case by (simp add: ret_def)
next
  case (Cons rid ids)
  from Cons.prems obtain r w1 rs' where
    1: "get_run e rid w = (Inr r, w1)" and
    2: "for_each (get_run e) ids w1 = (Inr rs', w')" and
    3: "rs = r # rs'"
    by (auto simp: bnd_def ret_def split: sum.splits prod.splits)
  from 1 have w1: "w1 = w\<lparr>clock := clock w + 1\<rparr>" and r: "find_run w rid = Some r"
    by (auto simp: get_run_def request_def split: if_splits option.splits)
  from Cons.IH [OF 2] have "w' = w1\<lparr>clock := clock w1 + length ids\<rparr>"
    and "map Some rs' = map (find_run w1) ids" by simp_all
  with w1 r 3 show ?case by simp
qed

lemma select_best_Inr:
  assumes "select_best e ti ids w = (Inr (), w')"
  shows "\<exists>best \<in> set ids.
           w' = w\<lparr>clock := clock w + length ids,
                  xcom := (xcom w)((ti, ''best_model_run_id'') \<mapsto> Str best)\<rparr>"
proof -
  from assms obtain rs w1 run_r2 i best_run where
    1: "for_each (get_run e) ids w = (Inr rs, w1)" and
    2: "collect (metric ''r2'') rs = Inr run_r2" and
    3: "argmax run_r2 = Inr i" and
    4: "item rs i = Inr best_run" and
    5: "xcom_push ti ''best_model_run_id'' (Str (run_id best_run)) w1 = (Inr (), w')"
    unfolding select_best_def bnd_def lift_def
    by (auto split: sum.splits prod.splits)
  from for_each_get_run_Inr [OF 1] have w1: "w1 = w\<lparr>clock := clock w + length ids\<rparr>"
    and rs: "map Some rs = map (find_run w) ids" by simp_all
  from rs have len: "length rs = length ids" by (metis length_map)
  from 4 have i: "i < length rs" and b: "best_run = rs ! i"
    by (auto simp: item_def split: if_splits)
  from rs i len have "find_run w (ids ! i) = Some (rs ! i)"
    by (metis length_map nth_map)
  then have "run_id best_run = ids ! i" using b by (auto dest: find_run_id)
  moreover from i len have "ids ! i \<in> set ids" by simp
  moreover from 5 w1 have "w' = w\<lparr>clock := clock w + length ids,
      xcom := (xcom w)((ti, ''best_model_run_id'') \<mapsto> Str (run_id best_run))\<rparr>"
    by (simp add: xcom_push_def)
  ultimately show ?thesis by auto
qed

lemma get_best_model_select_best:
  "xcom w (''model_lr'', ''run_id'') = Some (StrList lr) \<Longrightarrow>
   xcom w (''model_rf'', ''run_id'') = Some (StrList rf) \<Longrightarrow>
   get_best_model e ti w = select_best e ti (lr @ rf) w"
  by (simp add: get_best_model_def bnd_def lift_def xcom_pull_many_def)

text \<open>
  Claim C5. After the linear trainer and the forest trainer have both returned, in either
  order, five runs have been created; the message of task "model_lr" under "run_id" is
  the one-element list of the id of the run the linear trainer created, and the message
  of task "model_rf" is the list of the ids of the four runs the forest trainer created.
  \<open>get_best_model\<close> in that world is the selection among these five ids, the linear
  one first: when it returns it has looked up five runs and published one of the five.
\<close>

theorem trainers_publish_five_candidates:
  assumes "(task_lr e w = (Inr (), w1) \<and> task_rf e w1 = (Inr (), w2)) \<or>
           (task_rf e w = (Inr (), w1) \<and> task_lr e w1 = (Inr (), w2))"
  shows "length (new_runs w w2) = 5 \<and>
         length (ids_named ''lr'' (new_runs w w2)) = 1 \<and>
         length (ids_named ''rf'' (new_runs w w2)) = 4 \<and>
         xcom w2 (''model_lr'', ''run_id'') = Some (StrList (ids_named ''lr'' (new_runs w w2))) \<and>
         xcom w2 (''model_rf'', ''run_id'') = Some (StrList (ids_named ''rf'' (new_runs w w2))) \<and>
         get_best_model e ti w2 =
           select_best e ti
             (ids_named ''lr'' (new_runs w w2) @ ids_named ''rf'' (new_runs w w2)) w2 \<and>
         length (ids_named ''lr'' (new_runs w w2) @ ids_named ''rf'' (new_runs w w2)) = 5 \<and>
         (\<forall>w3. get_best_model e ti w2 = (Inr (), w3) \<longrightarrow>
            clock w3 = clock w2 + 5 \<and>
            (\<exists>best \<in> set (ids_named ''lr'' (new_runs w w2) @ ids_named ''rf'' (new_runs w w2)).
               xcom w3 (ti, ''best_model_run_id'') = Some (Str best)))"
proof -
  from assms have "\<exists>l r1 r2 r3 r4.
      (new_runs w w2 = [l, r1, r2, r3, r4] \<or> new_runs w w2 = [r1, r2, r3, r4, l]) \<and>
      run_name l = ''lr'' \<and> run_name r1 = ''rf'' \<and> run_name r2 = ''rf'' \<and>
      run_name r3 = ''rf'' \<and> run_name r4 = ''rf'' \<and>
      xcom w2 (''model_lr'', ''run_id'') = Some (StrList [run_id l]) \<and>
      xcom w2 (''model_rf'', ''run_id'') =
        Some (StrList [run_id r1, run_id r2, run_id r3, run_id r4])"
  proof
    assume "task_lr e w = (Inr (), w1) \<and> task_rf e w1 = (Inr (), w2)"
    then have "make_lr e ''model_lr'' w = (Inr (), w1)" "make_rf e ''model_rf'' w1 = (Inr (), w2)"
      by (simp_all add: task_lr_def task_rf_def)
    from trainers_lr_then_rf [OF this] show ?thesis by blast
  next
    assume "task_rf e w = (Inr (), w1) \<and> task_lr e w1 = (Inr (), w2)"
    then have "make_rf e ''model_rf'' w = (Inr (), w1)" "make_lr e ''model_lr'' w1 = (Inr (), w2)"
      by (simp_all add: task_lr_def task_rf_def)
    from trainers_rf_then_lr [OF this] show ?thesis by blast
  qed
  then obtain l r1 r2 r3 r4 where
    new: "new_runs w w2 = [l, r1, r2, r3, r4] \<or> new_runs w w2 = [r1, r2, r3, r4, l]" and
    names: "run_name l = ''lr''" "run_name r1 = ''rf''" "run_name r2 = ''rf''"
      "run_name r3 = ''rf''" "run_name r4 = ''rf''" and
    xl: "xcom w2 (''model_lr'', ''run_id'') = Some (StrList [run_id l])" and
    xr: "xcom w2 (''model_rf'', ''run_id'') =
        Some (StrList [run_id r1, run_id r2, run_id r3, run_id r4])"
    by blast
  let ?ids = "ids_named ''lr'' (new_runs w w2) @ ids_named ''rf'' (new_runs w w2)"
  have len: "length (new_runs w w2) = 5" using new by auto
  have il: "ids_named ''lr'' (new_runs w w2) = [run_id l]"
    using new names by (auto simp: ids_named_def)
  have ir: "ids_named ''rf'' (new_runs w w2) = [run_id r1, run_id r2, run_id r3, run_id r4]"
    using new names by (auto simp: ids_named_def)
  have g: "get_best_model e ti w2 = select_best e ti ?ids w2"
    unfolding il ir by (rule get_best_model_select_best [OF xl xr])
  have l5: "length ?ids = 5" by (simp add: il ir)
  have sel: "clock w3 = clock w2 + 5 \<and>
      (\<exists>best \<in> set ?ids. xcom w3 (ti, ''best_model_run_id'') = Some (Str best))"
    if "get_best_model e ti w2 = (Inr (), w3)" for w3
  proof -
    from that g have "select_best e ti ?ids w2 = (Inr (), w3)" by simp
    from select_best_Inr [OF this] obtain best where
      "best \<in> set ?ids" and
      "w3 = w2\<lparr>clock := clock w2 + length ?ids,
                xcom := (xcom w2)((ti, ''best_model_run_id'') \<mapsto> Str best)\<rparr>" by blast
    with l5 show ?thesis by auto
  qed
  show ?thesis
  proof (intro conjI)
    show "length (new_runs w w2) = 5" by (rule len)
    show "length (ids_named ''lr'' (new_runs w w2)) = 1" by (simp add: il)
    show "length (ids_named ''rf'' (new_runs w w2)) = 4" by (simp add: ir)
    show "xcom w2 (''model_lr'', ''run_id'') = Some (StrList (ids_named ''lr'' (new_runs w w2)))"
      by (simp add: il xl)
    show "xcom w2 (''model_rf'', ''run_id'') = Some (StrList (ids_named ''rf'' (new_runs w w2)))"
      by (simp add: ir xr)
    show "get_best_model e ti w2 = select_best e ti ?ids w2" by (rule g)
    show "length ?ids = 5" by (rule l5)
    show "\<forall>w3. get_best_model e ti w2 = (Inr (), w3) \<longrightarrow>
            clock w3 = clock w2 + 5 \<and>
            (\<exists>best \<in> set ?ids. xcom w3 (ti, ''best_model_run_id'') = Some (Str best))"
      using sel by blast
  qed
qed

lemma task_get_best_model_all_trained:
  "task_get_best_model reliable all_trained = (Inr (), selected)"
  by (simp add: task_get_best_model_def get_best_model_def select_best_def bnd_def lift_def
        ret_def xcom_pull_many_def xcom_push_def get_run_def request_def find_run_def
        metric_def item_def all_trained_def selected_def reliable_def process_run_def
        lr_run_def rf_run_of_def)

theorem trainers_publish_five_candidates_witness:
  "task_lr reliable published = (Inr (), lr_trained) \<and>
   task_rf reliable lr_trained = (Inr (), all_trained) \<and>
   length (new_runs published all_trained) = 5 \<and>
   xcom all_trained (''model_lr'', ''run_id'') = Some (StrList [''rr'']) \<and>
   xcom all_trained (''model_rf'', ''run_id'') =
     Some (StrList [''rrr'', ''rrrr'', ''rrrrr'', ''rrrrrr'']) \<and>
   get_best_model reliable ''get_best_model'' all_trained =
     select_best reliable ''get_best_model'' [''rr'', ''rrr'', ''rrrr'', ''rrrrr'', ''rrrrrr'']
       all_trained \<and>
   get_best_model reliable ''get_best_model'' all_trained = (Inr (), selected) \<and>
   clock selected = clock all_trained + 5 \<and>
   xcom selected (''get_best_model'', ''best_model_run_id'') = Some (Str ''rr'')"
proof -
  have h: "(task_lr reliable published = (Inr (), lr_trained) \<and>
            task_rf reliable lr_trained = (Inr (), all_trained)) \<or>
           (task_rf reliable published = (Inr (), lr_trained) \<and>
            task_lr reliable lr_trained = (Inr (), all_trained))"
    using task_lr_published task_rf_lr_trained by simp
  have n: "new_runs published all_trained =
     [lr_run, rf_run_of ''rrr'' FINISHED 4 4, rf_run_of ''rrrr'' FINISHED 4 10,
      rf_run_of ''rrrrr'' FINISHED 25 4, rf_run_of ''rrrrrr'' FINISHED 25 10]"
    by (simp add: new_runs_def published_def all_trained_def)
  have s: "get_best_model reliable ''get_best_model'' all_trained = (Inr (), selected)"
    using task_get_best_model_all_trained by (simp add: task_get_best_model_def)
  have x: "xcom selected (''get_best_model'', ''best_model_run_id'') = Some (Str ''rr'')"
    by (simp add: selected_def)
  from trainers_publish_five_candidates [OF h, of "''get_best_model''"] show ?thesis
    using task_lr_published task_rf_lr_trained s x
    by (simp add: n ids_named_def lr_run_def rf_run_of_def)
qed

subsection \<open>The metrics the trainers log\<close>

lemma eval_metrics_Inr:
  "eval_metrics actual pred = Inr (rmse, mae, r2) \<Longrightarrow>
   \<exists>mse. mean_squared_error actual pred = Inr mse \<and> rmse = fsqrt mse \<and>
         mean_absolute_error actual pred = Inr mae \<and> r2_score actual pred = Inr r2"
  by (auto simp: eval_metrics_def split: sum.splits)

lemma logs_scoresI:
  assumes "eval_metrics actual pred = Inr (rmse, mae, r2)"
    and "metrics r = [''rmse'' \<mapsto> rmse, ''mae'' \<mapsto> mae, ''r2'' \<mapsto> r2]"
  shows "logs_scores actual pred r"
proof -
  from eval_metrics_Inr [OF assms(1)] obtain mse where
    1: "mean_squared_error actual pred = Inr mse" "rmse = fsqrt mse"
      "mean_absolute_error actual pred = Inr mae" "r2_score actual pred = Inr r2" by blast
  from assms(2) have "metrics r ''rmse'' = Some rmse" "metrics r ''mae'' = Some mae"
    "metrics r ''r2'' = Some r2" by simp_all
  with 1 mse_joint [OF 1(1)] mae_joint [OF 1(3)] show ?thesis
    unfolding logs_scores_def by blast
qed

lemma rf_result_logs:
  assumes "rf_result e d n md i r"
  shows "\<exists>y_predict. grid_of r = (Some n, Some md) \<and>
           fit_predict e (RandomForestRegressor n md) d = Inr y_predict \<and>
           logs_scores (y_test d) y_predict r"
proof -
  from assms obtain y_predict rmse mae r2 where
    1: "fit_predict e (RandomForestRegressor n md) d = Inr y_predict"
      "eval_metrics (y_test d) y_predict = Inr (rmse, mae, r2)"
      "metrics r = [''rmse'' \<mapsto> rmse, ''mae'' \<mapsto> mae, ''r2'' \<mapsto> r2]"
    by (auto simp: rf_result_def)
  from rf_result_facts [OF assms] have "grid_of r = (Some n, Some md)" by simp
  with 1(1) logs_scoresI [OF 1(2,3)] show ?thesis by blast
qed

text \<open>
  Claim C8. In the run a trainer creates, the logged "rmse" is the square root of the
  mean squared error of the estimator's predictions against the held-out targets of the
  loaded data, "mae" is their mean absolute error and "r2" their R2 score, each computed
  from the whole matrices. The mean squared error and the mean absolute error are the
  means over all entries of the matrix, every row and every output column at once,
  unless they overflow to infinity. This holds for the run of the linear trainer and
  for each of the four runs of the forest trainer, with the estimator of its
  hyperparameters.
\<close>

theorem trainers_log_joint_metrics:
  "(make_lr e ti w = (Inr (), w') \<longrightarrow>
      (\<exists>d y_predict r. fst (load_data e w) = Inr d \<and>
         fit_predict e LinearRegression d = Inr y_predict \<and>
         new_runs w w' = [r] \<and> logs_scores (y_test d) y_predict r)) \<and>
   (make_rf e ti w = (Inr (), w') \<longrightarrow>
      (\<exists>d. fst (load_data e w) = Inr d \<and> length (new_runs w w') = 4 \<and>
         (\<forall>r \<in> set (new_runs w w').
            \<exists>n md y_predict. grid_of r = (Some n, Some md) \<and>
               fit_predict e (RandomForestRegressor n md) d = Inr y_predict \<and>
               logs_scores (y_test d) y_predict r)))"
proof (intro conjI impI)
  assume "make_lr e ti w = (Inr (), w')"
  from make_lr_Inr [OF this] obtain d y_predict rmse mae r2 r where
    1: "fst (load_data e w) = Inr d" "fit_predict e LinearRegression d = Inr y_predict"
      "eval_metrics (y_test d) y_predict = Inr (rmse, mae, r2)"
      "runs w' = runs w @ [r]"
      "metrics r = [''rmse'' \<mapsto> rmse, ''mae'' \<mapsto> mae, ''r2'' \<mapsto> r2]"
    by blast
  from 1(4) have "new_runs w w' = [r]" by (simp add: new_runs_def)
  with 1(1,2) logs_scoresI [OF 1(3,5)]
  show "\<exists>d y_predict r. fst (load_data e w) = Inr d \<and>
         fit_predict e LinearRegression d = Inr y_predict \<and>
         new_runs w w' = [r] \<and> logs_scores (y_test d) y_predict r" by blast
next
  assume "make_rf e ti w = (Inr (), w')"
  from make_rf_Inr [OF this] obtain d r1 r2 r3 r4 where
    d: "fst (load_data e w) = Inr d" and
    rs: "runs w' = runs w @ [r1, r2, r3, r4]" and
    1: "rf_result e d 4 4 (length (runs w)) r1" and
    2: "rf_result e d 4 10 (length (runs w) + 1) r2" and
    3: "rf_result e d 25 4 (length (runs w) + 2) r3" and
    4: "rf_result e d 25 10 (length (runs w) + 3) r4"
    by blast
  have new: "new_runs w w' = [r1, r2, r3, r4]" using rs by (simp add: new_runs_def)
  have "\<forall>r \<in> set (new_runs w w').
            \<exists>n md y_predict. grid_of r = (Some n, Some md) \<and>
               fit_predict e (RandomForestRegressor n md) d = Inr y_predict \<and>
               logs_scores (y_test d) y_predict r"
    unfolding new
    using rf_result_logs [OF 1] rf_result_logs [OF 2] rf_result_logs [OF 3] rf_result_logs [OF 4]
    by (simp only: list.set ball_simps insert_iff empty_iff) blast
  with d new
  show "\<exists>d. fst (load_data e w) = Inr d \<and> length (new_runs w w') = 4 \<and>
         (\<forall>r \<in> set (new_runs w w').
            \<exists>n md y_predict. grid_of r = (Some n, Some md) \<and>
               fit_predict e (RandomForestRegressor n md) d = Inr y_predict \<and>
               logs_scores (y_test d) y_predict r)"
    by (intro exI [of _ d]) simp
qed

theorem trainers_log_joint_metrics_witness:
  "make_lr reliable ''model_lr'' published = (Inr (), lr_trained) \<and>
   (\<exists>d y_predict r. fst (load_data reliable published) = Inr d \<and>
      fit_predict reliable LinearRegression d = Inr y_predict \<and>
      new_runs published lr_trained = [r] \<and> logs_scores (y_test d) y_predict r) \<and>
   make_rf reliable ''model_rf'' lr_trained = (Inr (), all_trained) \<and>
   (\<exists>d. fst (load_data reliable lr_trained) = Inr d \<and>
      length (new_runs lr_trained all_trained) = 4 \<and>
      (\<forall>r \<in> set (new_runs lr_trained all_trained).
         \<exists>n md y_predict. grid_of r = (Some n, Some md) \<and>
            fit_predict reliable (RandomForestRegressor n md) d = Inr y_predict \<and>
            logs_scores (y_test d) y_predict r)) \<and>
   mean_squared_error [[3, 6], [4, 8]] [[5, 8], [6, 10]] = Inr (Num 4) \<and>
   metrics (rf_run_of ''rrr'' FINISHED 4 4) ''rmse'' = Some (fsqrt (Num 4))"
proof -
  have 1: "make_lr reliable ''model_lr'' published = (Inr (), lr_trained)"
    using task_lr_published by (simp add: task_lr_def)
  have 2: "make_rf reliable ''model_rf'' lr_trained = (Inr (), all_trained)"
    using task_rf_lr_trained by (simp add: task_rf_def)
  have 3: "metrics (rf_run_of ''rrr'' FINISHED 4 4) ''rmse'' = Some (fsqrt (Num 4))"
    by (simp add: rf_run_of_def)
  from trainers_log_joint_metrics [of reliable "''model_lr''" published lr_trained]
    trainers_log_joint_metrics [of reliable "''model_rf''" lr_trained all_trained]
  show ?thesis using 1 2 3 mse_example by blast
qed

section \<open>Properties of the Model Promoter\<close>

text \<open>
  Claim C6. With a selected run id in the message store and a registry that answers,
  \<open>register_best_model\<close> registers the URI runs:/<id>/model under the name "BestModel"
  and moves the version number it received to stage "Production". Nothing is assumed of
  the runs or their metrics, and no step lies between the two calls; when the second
  call fails, the registered version stays, at stage "None".
\<close>

theorem register_best_model_promotes:
  assumes "xcom w (''get_best_model'', ''best_model_run_id'') = Some (Str rid)"
    and "up e (clock w)"
  shows "(up e (clock w + 1) \<longrightarrow>
            (\<exists>w'. register_best_model e ti w = (Inr (), w') \<and>
               last (registry w') =
                 \<lparr>name = ''BestModel'',
                  version = Suc (length (filter (\<lambda>v. name v = ''BestModel'') (registry w))),
                  source = ''runs:/'' @ rid @ ''/model'', current_stage = ''Production''\<rparr> \<and>
               length (registry w') = Suc (length (registry w)) \<and>
               runs w' = runs w \<and> xcom w' = xcom w)) \<and>
         (\<not> up e (clock w + 1) \<longrightarrow>
            (\<exists>err w'. register_best_model e ti w = (Inl err, w') \<and>
               registry w' = registry w @
                 [\<lparr>name = ''BestModel'',
                   version = Suc (length (filter (\<lambda>v. name v = ''BestModel'') (registry w))),
                   source = ''runs:/'' @ rid @ ''/model'', current_stage = ''None''\<rparr>]))"
  using assms
  by (simp add: register_best_model_def bnd_def xcom_pull_def register_model_def
        transition_model_version_stage_def request_def Let_def)

lemma task_register_best_model_selected:
  "task_register_best_model reliable selected = (Inr (), promoted)"
  by (simp add: task_register_best_model_def register_best_model_def bnd_def xcom_pull_def
        register_model_def transition_model_version_stage_def request_def Let_def
        selected_def promoted_def all_trained_def reliable_def)

theorem register_best_model_promotes_witness:
  "register_best_model reliable ''register_best_model'' selected = (Inr (), promoted) \<and>
   last (registry promoted) =
     \<lparr>name = ''BestModel'', version = 1, source = ''runs:/rr/model'',
      current_stage = ''Production''\<rparr> \<and>
   (\<exists>err w'. register_best_model (reliable\<lparr>up := (\<lambda>n. n < 49)\<rparr>) ''register_best_model'' selected
        = (Inl err, w') \<and>
      registry w' = [\<lparr>name = ''BestModel'', version = 1, source = ''runs:/rr/model'',
                       current_stage = ''None''\<rparr>])"
proof -
  have x: "xcom selected (''get_best_model'', ''best_model_run_id'') = Some (Str ''rr'')"
    by (simp add: selected_def)
  have c: "clock selected = 48" and r: "registry selected = []"
    by (simp_all add: selected_def all_trained_def)
  have u1: "up reliable (clock selected)" by (simp add: reliable_def)
  have u2: "up (reliable\<lparr>up := (\<lambda>n. n < 49)\<rparr>) (clock selected)" by (simp add: c)
  from register_best_model_promotes [OF x u1, of "''register_best_model''"]
    register_best_model_promotes [OF x u2, of "''register_best_model''"]
  show ?thesis
    using task_register_best_model_selected
    by (simp add: task_register_best_model_def c r reliable_def promoted_def)
qed

end
